theory Spec2Isabelle
  imports Main "HOL-Library.Sublist"
begin

section \<open>The Verilator linter of \<open>src/linter/VerilatorLinter.ts\<close>\<close>

text \<open>
  The class \<open>VerilatorLinter\<close> builds a command line for the external tool, runs it with
  \<open>child_process.exec\<close> and, in the completion callback, turns the tool's error stream into
  diagnostics grouped by file. The embedding follows the source function by function:
  JavaScript strings are \<open>string\<close> (a \<open>char\<close> stands for a code unit below 256), JavaScript
  numbers are the doubles that can arise here (\<open>jsnum\<close>), the regular expression literal is
  a syntax tree run by a backtracking matcher, and what the code reads from its imports
  (\<open>path\<close>, \<open>process.platform\<close>, \<open>workspace.rootPath\<close>, \<open>child_process.execSync\<close>,
  \<open>Uri.file\<close>) is a record \<open>host\<close> passed to every function. A function that can throw
  returns a sum, the exception on the left.
\<close>

subsection \<open>JavaScript strings\<close>

definition LF :: char where "LF = CHR 0x0A"
definition CR :: char where "CR = CHR 0x0D"
definition BACKSLASH :: char where "BACKSLASH = CHR 0x5C"
definition QUOTE :: char where "QUOTE = CHR 0x27"

text \<open>\<open>s.startsWith(p)\<close>.\<close>

definition startsWith :: "string \<Rightarrow> string \<Rightarrow> bool" where
  "startsWith s p = (take (length p) s = p)"

text \<open>\<open>s.lastIndexOf(ch)\<close> for a one-character needle: the last index holding it, or -1.\<close>

fun lastIndexOf_from :: "char \<Rightarrow> string \<Rightarrow> nat \<Rightarrow> int \<Rightarrow> int" where
  "lastIndexOf_from ch [] i found = found"
| "lastIndexOf_from ch (x # xs) i found =
     lastIndexOf_from ch xs (Suc i) (if x = ch then int i else found)"

definition lastIndexOf :: "string \<Rightarrow> char \<Rightarrow> int" where
  "lastIndexOf s ch = lastIndexOf_from ch s 0 (- 1)"

text \<open>\<open>s.substr(0, n)\<close>: a negative length gives the empty string.\<close>

definition substr0 :: "string \<Rightarrow> int \<Rightarrow> string" where
  "substr0 s n = take (nat n) s"

text \<open>\<open>s.replace(/\\/g, '/')\<close>.\<close>

definition replace_backslashes :: "string \<Rightarrow> string" where
  "replace_backslashes s = map (\<lambda>x. if x = BACKSLASH then CHR ''/'' else x) s"

text \<open>\<open>s.replace(/\r?\n/g, '')\<close>: every \<open>\r\n\<close> and every \<open>\n\<close> goes, a lone \<open>\r\<close> stays.\<close>

fun strip_newlines :: "string \<Rightarrow> string" where
  "strip_newlines [] = []"
| "strip_newlines [x] = (if x = LF then [] else [x])"
| "strip_newlines (x # y # xs) =
     (if x = LF then strip_newlines (y # xs)
      else if x = CR \<and> y = LF then strip_newlines xs
      else x # strip_newlines (y # xs))"

text \<open>\<open>s.split(/\r?\n/g)\<close>: the pieces between the separators, at least one piece.\<close>

fun split_lines :: "string \<Rightarrow> string list" where
  "split_lines [] = [[]]"
| "split_lines [x] = (if x = LF then [[], []] else [[x]])"
| "split_lines (x # y # xs) =
     (if x = LF then [] # split_lines (y # xs)
      else if x = CR \<and> y = LF then [] # split_lines xs
      else (case split_lines (y # xs) of
              l # ls \<Rightarrow> (x # l) # ls
            | [] \<Rightarrow> [[x]]))"

text \<open>\<open>parts.join(sep)\<close>.\<close>

fun join :: "string \<Rightarrow> string list \<Rightarrow> string" where
  "join sep [] = []"
| "join sep [p] = p"
| "join sep (p # q # ps) = p @ sep @ join sep (q # ps)"

subsection \<open>JavaScript numbers\<close>

text \<open>
  The numbers of this program come from \<open>Number(capture) - 1\<close> and \<open>Number.MAX_VALUE\<close>: they
  are integer-valued doubles, an infinity or NaN. \<open>to_double\<close> rounds an integer to the
  nearest double (ties to even, 53 significant bits, overflow to infinity at \<open>2 ^ 1024\<close>).
\<close>

datatype jsnum = NaN | Num int | PosInfinity | NegInfinity

fun bitlen :: "int \<Rightarrow> nat" where
  "bitlen n = (if n \<le> 0 then 0 else Suc (bitlen (n div 2)))"

declare bitlen.simps [simp del]

text \<open>The nearest double of a non-negative integer, \<open>None\<close> when it is beyond the largest.\<close>

definition round53 :: "int \<Rightarrow> int option" where
  "round53 n =
     (if n < 2 ^ 53 then Some n
      else let e = bitlen n - 53;
               q = n div 2 ^ e;
               r = n mod 2 ^ e;
               half = 2 ^ (e - 1);
               q' = (if half < r \<or> (r = half \<and> odd q) then q + 1 else q);
               v = q' * 2 ^ e
           in if 2 ^ 1024 \<le> v then None else Some v)"

definition to_double :: "int \<Rightarrow> jsnum" where
  "to_double i =
     (case round53 \<bar>i\<bar> of
        None \<Rightarrow> (if i < 0 then NegInfinity else PosInfinity)
      | Some v \<Rightarrow> Num (if i < 0 then - v else v))"

definition MAX_VALUE :: jsnum where
  "MAX_VALUE = Num ((2 ^ 53 - 1) * 2 ^ 971)"

text \<open>\<open>x - 1\<close>.\<close>

fun minus_one :: "jsnum \<Rightarrow> jsnum" where
  "minus_one NaN = NaN"
| "minus_one (Num v) = to_double (v - 1)"
| "minus_one PosInfinity = PosInfinity"
| "minus_one NegInfinity = NegInfinity"

definition isNaN :: "jsnum \<Rightarrow> bool" where
  "isNaN x = (x = NaN)"

text \<open>\<open>a <= b\<close> on numbers; every comparison with NaN is false.\<close>

fun js_le :: "jsnum \<Rightarrow> jsnum \<Rightarrow> bool" where
  "js_le NaN _ = False"
| "js_le _ NaN = False"
| "js_le NegInfinity _ = True"
| "js_le _ PosInfinity = True"
| "js_le (Num a) (Num b) = (a \<le> b)"
| "js_le _ _ = False"

text \<open>\<open>a < b\<close> on numbers, likewise.\<close>

fun js_lt :: "jsnum \<Rightarrow> jsnum \<Rightarrow> bool" where
  "js_lt NaN _ = False"
| "js_lt _ NaN = False"
| "js_lt (Num a) (Num b) = (a < b)"
| "js_lt (Num a) PosInfinity = True"
| "js_lt (Num a) NegInfinity = False"
| "js_lt NegInfinity (Num b) = True"
| "js_lt NegInfinity PosInfinity = True"
| "js_lt NegInfinity NegInfinity = False"
| "js_lt PosInfinity _ = False"

definition in_range :: "char \<Rightarrow> char \<Rightarrow> char \<Rightarrow> bool" where
  "in_range lo hi x = ((of_char lo :: nat) \<le> of_char x \<and> (of_char x :: nat) \<le> of_char hi)"

definition is_digit :: "char \<Rightarrow> bool" where
  "is_digit x = in_range CHR ''0'' CHR ''9'' x"

definition digit_value :: "char \<Rightarrow> int" where
  "digit_value x = of_char x - 48"

definition decimal :: "string \<Rightarrow> int" where
  "decimal s = foldl (\<lambda>a x. 10 * a + digit_value x) 0 s"

text \<open>
  \<open>Number(v)\<close> where \<open>v\<close> is an element of the match array: \<open>undefined\<close> converts to NaN, a
  run of decimal digits to the double nearest its value, the empty string to 0. What
  \<open>Number\<close> gives on any other string (a numeric literal with a sign, a fraction or an
  exponent, or text that is no number) is left open: it is the argument \<open>other\<close>. The
  program never passes such a string, since captures 4 and 5 are \<open>(\d+)\<close> (\<open>exec_shape\<close>
  below).
\<close>

definition Number :: "(string \<Rightarrow> jsnum) \<Rightarrow> string option \<Rightarrow> jsnum" where
  "Number other v =
     (case v of
        None \<Rightarrow> NaN
      | Some s \<Rightarrow> if list_all is_digit s then to_double (decimal s) else other s)"

subsection \<open>Regular expressions\<close>

text \<open>
  The syntax of the pattern fragment the source uses: literal characters, \<open>.\<close>, bracket
  classes, the escapes \<open>\w\<close>, \<open>\d\<close>, \<open>\s\<close>, concatenation, capturing groups (numbered as
  JavaScript numbers them, by opening parenthesis) and the greedy quantifiers \<open>*\<close>, \<open>+\<close>,
  \<open>?\<close>. A non-capturing group \<open>(?:r)\<close> is \<open>r\<close> itself.
\<close>

datatype citem = CChar char | CRange char char

datatype regex =
    Lit char
  | Dot
  | Cls "citem list"
  | Word
  | Digit
  | Space
  | Seq regex regex
  | Grp nat regex
  | Star regex
  | Plus regex
  | Opt regex

type_synonym caps = "nat \<Rightarrow> string option"

fun citem_matches :: "citem \<Rightarrow> char \<Rightarrow> bool" where
  "citem_matches (CChar a) x = (x = a)"
| "citem_matches (CRange lo hi) x = in_range lo hi x"

definition cls_matches :: "citem list \<Rightarrow> char \<Rightarrow> bool" where
  "cls_matches cl x = list_ex (\<lambda>i. citem_matches i x) cl"

definition is_word :: "char \<Rightarrow> bool" where
  "is_word x =
     (in_range CHR ''a'' CHR ''z'' x \<or> in_range CHR ''A'' CHR ''Z'' x \<or> is_digit x \<or> x = CHR ''_'')"

text \<open>
  White space and line terminators among the code units below 256: tab, line feed,
  vertical tab, form feed, carriage return, space and the no-break space.
\<close>

definition is_space :: "char \<Rightarrow> bool" where
  "is_space x = ((of_char x :: nat) \<in> {9, 10, 11, 12, 13, 32, 160})"

definition is_line_terminator :: "char \<Rightarrow> bool" where
  "is_line_terminator x = (x = LF \<or> x = CR)"

text \<open>Matching one character that satisfies \<open>p\<close>: the rest of the input, captures unchanged.\<close>

fun one :: "(char \<Rightarrow> bool) \<Rightarrow> string \<Rightarrow> caps \<Rightarrow> (string \<times> caps) list" where
  "one p [] c = []"
| "one p (x # xs) c = (if p x then [(xs, c)] else [])"

fun groups_of :: "regex \<Rightarrow> nat list" where
  "groups_of (Seq r1 r2) = groups_of r1 @ groups_of r2"
| "groups_of (Grp n r) = n # groups_of r"
| "groups_of (Star r) = groups_of r"
| "groups_of (Plus r) = groups_of r"
| "groups_of (Opt r) = groups_of r"
| "groups_of _ = []"

definition clear :: "nat list \<Rightarrow> caps \<Rightarrow> caps" where
  "clear ns c = (\<lambda>n. if n \<in> set ns then None else c n)"

fun rank :: "regex \<Rightarrow> nat" where
  "rank (Seq r1 r2) = Suc (rank r1 + rank r2)"
| "rank (Grp n r) = Suc (rank r)"
| "rank (Star r) = Suc (rank r)"
| "rank (Plus r) = Suc (Suc (rank r))"
| "rank (Opt r) = Suc (rank r)"
| "rank _ = 0"

text \<open>
  The backtracking matcher of ECMAScript as a list of successes: \<open>ms r s c\<close> lists, in the
  order in which backtracking tries them, the ways \<open>r\<close> matches a prefix of \<open>s\<close> starting
  from the captures \<open>c\<close>, each as the unread rest of \<open>s\<close> with the captures after it.
  A quantifier is greedy (one more repetition is tried before stopping), it resets the
  captures of its body at the start of every repetition, and a repetition beyond the
  required minimum that consumes nothing is rejected.
\<close>

function ms :: "regex \<Rightarrow> string \<Rightarrow> caps \<Rightarrow> (string \<times> caps) list" where
  "ms (Lit a) s c = one (\<lambda>x. x = a) s c"
| "ms Dot s c = one (\<lambda>x. \<not> is_line_terminator x) s c"
| "ms (Cls cl) s c = one (cls_matches cl) s c"
| "ms Word s c = one is_word s c"
| "ms Digit s c = one is_digit s c"
| "ms Space s c = one is_space s c"
| "ms (Seq r1 r2) s c = concat (map (\<lambda>(s', c'). ms r2 s' c') (ms r1 s c))"
| "ms (Grp n r) s c =
     map (\<lambda>(s', c'). (s', c'(n := Some (take (length s - length s') s)))) (ms r s c)"
| "ms (Star r) s c =
     concat (map (\<lambda>(s', c'). if length s' < length s then ms (Star r) s' c' else [])
                 (ms r s (clear (groups_of r) c)))
     @ [(s, c)]"
| "ms (Plus r) s c =
     concat (map (\<lambda>(s', c'). ms (Star r) s' c') (ms r s (clear (groups_of r) c)))"
| "ms (Opt r) s c =
     filter (\<lambda>(s', c'). length s' < length s) (ms r s (clear (groups_of r) c)) @ [(s, c)]"
  by pat_completeness auto
termination
  by (relation "measures [\<lambda>(r, s, c). rank r, \<lambda>(r, s, c). length s]") auto

text \<open>
  \<open>re.exec\<close> for a pattern without flags: the leftmost start position at which the pattern
  matches, with the first way the matcher finds there. The result is the start index
  and the match array: element 0 the matched text, element \<open>k\<close> capture \<open>k\<close> or \<open>undefined\<close>
  (\<open>None\<close>).
\<close>

fun exec_from :: "regex \<Rightarrow> nat \<Rightarrow> string \<Rightarrow> (nat \<times> string option list) option" where
  "exec_from re i s =
     (case ms re s (\<lambda>_. None) of
        (s', c) # _ \<Rightarrow>
          Some (i, Some (take (length s - length s') s) # map c [1 ..< Suc (length (groups_of re))])
      | [] \<Rightarrow> (case s of [] \<Rightarrow> None | _ # t \<Rightarrow> exec_from re (Suc i) t))"

text \<open>\<open>line.search(re)\<close>: the index of the first match, or -1.\<close>

definition search :: "string \<Rightarrow> regex \<Rightarrow> int" where
  "search line re = (case exec_from re 0 line of None \<Rightarrow> - 1 | Some (i, _) \<Rightarrow> int i)"

text \<open>\<open>line.match(re)\<close> for a pattern without the \<open>g\<close> flag: the match array, or \<open>null\<close>.\<close>

definition match :: "string \<Rightarrow> regex \<Rightarrow> string option list option" where
  "match line re = map_option snd (exec_from re 0 line)"

text \<open>
  The pattern of line 151:
  \<^verbatim>\<open>/%(\w+)(-[A-Z0-9_]+)?:\s*(.*\.[a-zA-Z]+):(\d+):(?:\s*(\d+):)?\s*(\s*.+)/\<close>
\<close>

definition re_code :: regex where
  "re_code = Grp 2 (Seq (Lit CHR ''-'')
                    (Plus (Cls [CRange CHR ''A'' CHR ''Z'', CRange CHR ''0'' CHR ''9'', CChar CHR ''_''])))"

definition re_path :: regex where
  "re_path = Grp 3 (Seq (Star Dot) (Seq (Lit CHR ''.'')
                    (Plus (Cls [CRange CHR ''a'' CHR ''z'', CRange CHR ''A'' CHR ''Z'']))))"

definition re_column :: regex where
  "re_column = Seq (Star Space) (Seq (Grp 5 (Plus Digit)) (Lit CHR '':''))"

definition re_message :: regex where
  "re_message = Grp 6 (Seq (Star Space) (Plus Dot))"

definition re :: regex where
  "re = Seq (Lit CHR ''%'') (Seq (Grp 1 (Plus Word)) (Seq (Opt re_code) (Seq (Lit CHR '':'')
         (Seq (Star Space) (Seq re_path (Seq (Lit CHR '':'') (Seq (Grp 4 (Plus Digit))
         (Seq (Lit CHR '':'') (Seq (Opt re_column) (Seq (Star Space) re_message))))))))))"

subsection \<open>The \<open>path\<close> module\<close>

text \<open>
  Node's \<open>path\<close> is outside the repository, and which implementation \<open>path\<close> names depends
  on the platform. The functions take it as part of \<open>host\<close>; \<open>posix_join\<close> and
  \<open>posix_isAbsolute\<close> below are \<open>path.posix\<close>, the one a non-Windows host has, written from
  Node's documentation: \<open>join\<close> glues the non-empty arguments with \<open>/\<close> and normalises the
  result (empty and \<open>.\<close> segments go, \<open>..\<close> removes the segment before it, a trailing
  slash stays).
\<close>

fun split_on :: "char \<Rightarrow> string \<Rightarrow> string list" where
  "split_on sep [] = [[]]"
| "split_on sep (x # xs) =
     (if x = sep then [] # split_on sep xs
      else (case split_on sep xs of
              l # ls \<Rightarrow> (x # l) # ls
            | [] \<Rightarrow> [[x]]))"

fun normalize_segments :: "bool \<Rightarrow> string list \<Rightarrow> string list \<Rightarrow> string list" where
  "normalize_segments allowAboveRoot [] res = res"
| "normalize_segments allowAboveRoot (seg # segs) res =
     (if seg = [] \<or> seg = ''.'' then normalize_segments allowAboveRoot segs res
      else if seg = ''..'' then
        (if res \<noteq> [] \<and> last res \<noteq> ''..'' then normalize_segments allowAboveRoot segs (butlast res)
         else if allowAboveRoot then normalize_segments allowAboveRoot segs (res @ [''..''])
         else normalize_segments allowAboveRoot segs res)
      else normalize_segments allowAboveRoot segs (res @ [seg]))"

definition posix_isAbsolute :: "string \<Rightarrow> bool" where
  "posix_isAbsolute p = (p \<noteq> [] \<and> hd p = CHR ''/'')"

definition posix_normalize :: "string \<Rightarrow> string" where
  "posix_normalize p =
     (if p = [] then ''.''
      else let isAbsolute = (hd p = CHR ''/'');
               trailingSeparator = (last p = CHR ''/'');
               q = join ''/'' (normalize_segments (\<not> isAbsolute) (split_on CHR ''/'' p) [])
           in if q = [] then (if isAbsolute then ''/'' else if trailingSeparator then ''./'' else ''.'')
              else (if isAbsolute then ''/'' else []) @ q @ (if trailingSeparator then ''/'' else []))"

definition posix_join :: "string list \<Rightarrow> string" where
  "posix_join args =
     (case filter (\<lambda>a. a \<noteq> []) args of
        [] \<Rightarrow> ''.''
      | parts \<Rightarrow> posix_normalize (join ''/'' parts))"

subsection \<open>Data model\<close>

datatype DiagnosticSeverity = Error | Warning | Information | Hint

datatype LogSeverity = info | warn | error | command

text \<open>A log entry: the message and the severity argument (\<open>None\<close> when the call omits it).\<close>

type_synonym LogEntry = "string \<times> LogSeverity option"

text \<open>
  What can be thrown on the way: a \<open>TypeError\<close> (an \<open>undefined\<close> where a string is needed),
  the argument error of the \<open>Range\<close> constructor, and the error of a failed \<open>execSync\<close>.
\<close>

datatype exn = TypeError | IllegalArgument | ExecSyncError

record Range_vs =
  startLine :: jsnum
  startCharacter :: jsnum
  endLine :: jsnum
  endCharacter :: jsnum

text \<open>
  \<open>new Range(startLine, startCharacter, endLine, endCharacter)\<close> of the editor's API, written
  from its documentation: each of the two positions is refused when its line or its
  character is negative (\<open>line < 0\<close>, \<open>character < 0\<close>: NaN passes), and the positions are
  stored in order, swapped when the first is not before the second.
\<close>

definition isBefore :: "jsnum \<times> jsnum \<Rightarrow> jsnum \<times> jsnum \<Rightarrow> bool" where
  "isBefore p q =
     (if js_lt (fst p) (fst q) then True
      else if js_lt (fst q) (fst p) then False
      else js_lt (snd p) (snd q))"

definition new_Range :: "jsnum \<Rightarrow> jsnum \<Rightarrow> jsnum \<Rightarrow> jsnum \<Rightarrow> exn + Range_vs" where
  "new_Range sl sc el ec =
     (if js_lt sl (Num 0) \<or> js_lt sc (Num 0) \<or> js_lt el (Num 0) \<or> js_lt ec (Num 0)
      then Inl IllegalArgument
      else if isBefore (sl, sc) (el, ec)
      then Inr \<lparr>startLine = sl, startCharacter = sc, endLine = el, endCharacter = ec\<rparr>
      else Inr \<lparr>startLine = el, startCharacter = ec, endLine = sl, endCharacter = sc\<rparr>)"

text \<open>The object literal of type \<open>Diagnostic\<close>.\<close>

record Diagnostic =
  severity :: DiagnosticSeverity
  range_vs :: Range_vs
  message :: string
  code :: string
  source :: string

text \<open>The fields of the class, read from the configuration by \<open>getConfig\<close>.\<close>

record config =
  verilatorPath :: string
  verilatorArgs :: string
  runAtFileLocation :: bool
  useWSL :: bool

text \<open>
  What the code reads from outside the class: \<open>process.platform === 'win32'\<close>;
  \<open>workspace.rootPath\<close>, which is \<open>undefined\<close> (\<open>None\<close>) when no folder is open; the two
  functions of \<open>path\<close> it calls; \<open>child_process.execSync\<close> (the output of the command,
  \<open>None\<close> when it throws); \<open>Number\<close> on strings that are not runs of digits; and the key
  under which the diagnostic collection files \<open>Uri.file(filename)\<close>: two file names with
  the same key are one entry of the collection.
\<close>

record host =
  isWindows :: bool
  rootPath :: "string option"
  path_join :: "string list \<Rightarrow> string"
  path_isAbsolute :: "string \<Rightarrow> bool"
  execSync :: "string \<Rightarrow> string option"
  StringToNumber :: "string \<Rightarrow> jsnum"
  uri_key :: "string \<Rightarrow> string \<times> string"

text \<open>
  \<open>Uri.file\<close> on a host that is not Windows, written from the library's documentation,
  as the authority and the path of the URI: a name that starts with two slashes names a
  share, whose host is the authority, and a path that does not start with a slash is
  given one.
\<close>

fun index_of :: "char \<Rightarrow> string \<Rightarrow> nat option" where
  "index_of ch [] = None"
| "index_of ch (x # xs) = (if x = ch then Some 0 else map_option Suc (index_of ch xs))"

definition reference_path :: "string \<Rightarrow> string" where
  "reference_path p = (if p = [] then ''/'' else if hd p \<noteq> CHR ''/'' then CHR ''/'' # p else p)"

definition posix_uri_key :: "string \<Rightarrow> string \<times> string" where
  "posix_uri_key p =
     (if startsWith p ''//'' then
        (case index_of CHR ''/'' (drop 2 p) of
           None \<Rightarrow> (drop 2 p, ''/'')
         | Some i \<Rightarrow> (take i (drop 2 p), reference_path (drop i (drop 2 p))))
      else ([], reference_path p))"

text \<open>
  A host that is not Windows, with a workspace folder open. \<open>Number\<close> on other strings is
  never called for; it is given as NaN here.
\<close>

definition posix_host :: "string \<Rightarrow> host" where
  "posix_host root =
     \<lparr>isWindows = False, rootPath = Some root, path_join = posix_join,
      path_isAbsolute = posix_isAbsolute, execSync = (\<lambda>_. None),
      StringToNumber = (\<lambda>_. NaN), uri_key = posix_uri_key\<rparr>"

text \<open>The part of \<open>TextDocument\<close> the linter reads: \<open>doc.uri.fsPath\<close> and \<open>doc.languageId\<close>.\<close>

record TextDocument =
  fsPath :: string
  languageId :: string

text \<open>
  The object \<open>diagnostics\<close> of the callback: file name to array of diagnostics, in insertion
  order (its keys are file names, never array indices).
\<close>

type_synonym Diagnostics = "(string \<times> Diagnostic list) list"

text \<open>
  The state the callback works on: the \<open>DiagnosticCollection\<close>, each entry shown with the
  file name last given for it, and the lines written to the logger.
\<close>

record lint_state =
  collection :: "(string \<times> Diagnostic list) list"
  logs :: "LogEntry list"

subsection \<open>\<open>getSeverity\<close>\<close>

definition getSeverity :: "string \<Rightarrow> DiagnosticSeverity" where
  "getSeverity severityString =
     (if startsWith severityString ''Error'' then Error
      else if startsWith severityString ''Warning'' then Warning
      else Information)"

subsection \<open>The callback of \<open>lint\<close>: parsing the error stream\<close>

text \<open>
  Lines 184 to 188: the diagnostic starts the array of a file name that is not yet a key
  of \<open>diagnostics\<close> and is pushed onto the array of one that is.
\<close>

fun push_at :: "string \<Rightarrow> Diagnostic \<Rightarrow> Diagnostics \<Rightarrow> Diagnostics" where
  "push_at filename d [] = []"
| "push_at filename d ((k, ds) # rest) =
     (if k = filename then (k, ds @ [d]) # rest else (k, ds) # push_at filename d rest)"

definition add_diagnostic :: "string \<Rightarrow> Diagnostic \<Rightarrow> Diagnostics \<Rightarrow> Diagnostics" where
  "add_diagnostic filename d diagnostics =
     (if filename \<notin> set (map fst diagnostics) then diagnostics @ [(filename, [d])]
      else push_at filename d diagnostics)"

text \<open>
  Line 159: the file name of the diagnostic. \<open>path.join\<close> throws a \<open>TypeError\<close> when the
  workspace root is \<open>undefined\<close>.
\<close>

definition resolve_filename :: "host \<Rightarrow> config \<Rightarrow> string \<Rightarrow> exn + string" where
  "resolve_filename h cfg rex3 =
     (if runAtFileLocation cfg then Inr rex3
      else if path_isAbsolute h rex3 then Inr rex3
      else (case rootPath h of
              None \<Rightarrow> Inl TypeError
            | Some root \<Rightarrow> Inr (path_join h [root, rex3])))"

text \<open>
  Lines 156 to 190, the body run on a match array \<open>rex\<close>: the file name and the diagnostic
  it adds, nothing when the line number is NaN, or the exception that leaves it.
  Elements 1, 3 and 6 are used as strings; were one of them \<open>undefined\<close> the result is
  \<open>TypeError\<close> (as \<open>rex[1]\<close> raises in \<open>getSeverity\<close>), which \<open>exec_shape\<close> below shows never
  happens for this pattern.
\<close>

definition diagnostic_of :: "host \<Rightarrow> config \<Rightarrow> string option list \<Rightarrow> exn + (string \<times> Diagnostic) option" where
  "diagnostic_of h cfg rex =
     (case rex of
        [_, Some rex1, rex2, Some rex3, rex4, rex5, Some rex6] \<Rightarrow>
          (let severity = getSeverity rex1;
               code = (case rex2 of Some c \<Rightarrow> drop 1 c | None \<Rightarrow> ''verilator'')
           in case resolve_filename h cfg rex3 of
                Inl e \<Rightarrow> Inl e
              | Inr filename \<Rightarrow>
                 (let lineNum = minus_one (Number (StringToNumber h) rex4);
                      colNum = minus_one (Number (StringToNumber h) rex5);
                      message = rex6;
                      colNum = (if isNaN colNum then Num 0 else colNum)
                  in if \<not> isNaN lineNum then
                       (case new_Range lineNum colNum lineNum MAX_VALUE of
                          Inl e \<Rightarrow> Inl e
                        | Inr r \<Rightarrow>
                            Inr (Some (filename,
                              \<lparr>severity = severity, range_vs = r, message = message,
                               code = code, source = ''verilator''\<rparr>)))
                     else Inr None))
      | _ \<Rightarrow> Inl TypeError)"

text \<open>
  Lines 149 to 198, the function given to \<open>lines.forEach\<close>, on the pair of \<open>diagnostics\<close>
  and the log.
\<close>

definition parse_line :: "host \<Rightarrow> config \<Rightarrow> string \<Rightarrow> Diagnostics \<times> LogEntry list \<Rightarrow> exn + Diagnostics \<times> LogEntry list" where
  "parse_line h cfg line acc =
     (if search line re \<noteq> - 1 then
        (case match line re of
           Some rex \<Rightarrow>
             (case rex of
                Some rex0 # _ \<Rightarrow>
                  if 0 < length rex0 then
                    (case diagnostic_of h cfg rex of
                       Inl e \<Rightarrow> Inl e
                     | Inr None \<Rightarrow> Inr acc
                     | Inr (Some (filename, d)) \<Rightarrow> Inr (add_diagnostic filename d (fst acc), snd acc))
                  else Inr (fst acc, snd acc @ [(''failed to parse error: '' @ line, Some warn)])
              | _ \<Rightarrow> Inl TypeError)
         | None \<Rightarrow> Inr (fst acc, snd acc @ [(''failed to parse error: '' @ line, Some warn)]))
      else Inr acc)"

text \<open>
  \<open>lines.forEach\<close>: an exception thrown on a line ends the loop; it is returned with the log
  as it stood.
\<close>

fun forEach_line :: "host \<Rightarrow> config \<Rightarrow> string list \<Rightarrow> Diagnostics \<times> LogEntry list \<Rightarrow> exn \<times> LogEntry list + Diagnostics \<times> LogEntry list" where
  "forEach_line h cfg [] acc = Inr acc"
| "forEach_line h cfg (line # lines) acc =
     (case parse_line h cfg line acc of
        Inl e \<Rightarrow> Inl (e, snd acc)
      | Inr acc' \<Rightarrow> forEach_line h cfg lines acc')"

text \<open>
  \<open>diagnosticCollection.set(Uri.file(filename), ds)\<close>: the entry of the file's URI is
  replaced, or a new entry made.
\<close>

fun collection_set :: "host \<Rightarrow> string \<Rightarrow> Diagnostic list \<Rightarrow> (string \<times> Diagnostic list) list \<Rightarrow> (string \<times> Diagnostic list) list" where
  "collection_set h filename ds [] = [(filename, ds)]"
| "collection_set h filename ds ((k, v) # rest) =
     (if uri_key h k = uri_key h filename then (filename, ds) # rest
      else (k, v) # collection_set h filename ds rest)"

text \<open>Lines 203 to 205: every key of \<open>diagnostics\<close>, in order, is set in the collection.\<close>

fun publish :: "host \<Rightarrow> Diagnostics \<Rightarrow> (string \<times> Diagnostic list) list \<Rightarrow> (string \<times> Diagnostic list) list" where
  "publish h [] coll = coll"
| "publish h ((filename, ds) # rest) coll = publish h rest (collection_set h filename ds coll)"

text \<open>
  \<open>diagnostics.length + ' errors/warnings returned'\<close>: \<open>diagnostics\<close> is an object, so its
  \<open>length\<close> is \<open>undefined\<close> unless a file is named \<open>length\<close>, whose array then prints as its
  elements joined by commas.
\<close>

definition length_text :: "Diagnostics \<Rightarrow> string" where
  "length_text diagnostics =
     (case map_of diagnostics ''length'' of
        None \<Rightarrow> ''undefined''
      | Some ds \<Rightarrow> join '','' (map (\<lambda>_. ''[object Object]'') ds))"

text \<open>
  Lines 137 to 206, the callback given to \<open>child.exec\<close>: \<open>err\<close> is the message of \<open>error\<close> when
  it is set, \<open>stderr\<close> the captured error stream. The result is the state the callback
  leaves; when an exception leaves the callback, that is the state at the throw (the
  collection not yet touched), given with the exception.
\<close>

definition lint_callback :: "host \<Rightarrow> config \<Rightarrow> string option \<Rightarrow> string \<Rightarrow> lint_state \<Rightarrow> exn \<times> lint_state + lint_state" where
  "lint_callback h cfg err stderr st =
     (let lg = (case err of Some m \<Rightarrow> logs st @ [(m, Some error)] | None \<Rightarrow> logs st);
          lines = split_lines stderr
      in case forEach_line h cfg lines ([], lg) of
           Inl (e, lg') \<Rightarrow> Inl (e, st\<lparr>logs := lg'\<rparr>)
         | Inr (diagnostics, lg') \<Rightarrow>
             Inr \<lparr>collection = publish h diagnostics [],
                  logs = lg' @ [(length_text diagnostics @ '' errors/warnings returned'', None)]\<rparr>)"

subsection \<open>The head of \<open>lint\<close>: building the command\<close>

text \<open>The command and the \<open>cwd\<close> option given to \<open>child.exec\<close>.\<close>

record invocation =
  cmd :: string
  cwd :: "string option"

text \<open>Lines 124 to 132: the command is assembled and logged.\<close>

definition assemble :: "host \<Rightarrow> config \<Rightarrow> string \<Rightarrow> string \<Rightarrow> string \<Rightarrow> string \<Rightarrow> string" where
  "assemble h cfg verilator svArgs docFolder docUri =
     join '' '' [path_join h [verilatorPath cfg, verilator], svArgs, ''--lint-only'',
                 ''-I'' @ docFolder, verilatorArgs cfg, docUri]"

text \<open>
  Lines 85 to 136: the log so far is threaded through; the result is the command with
  its working directory, or the exception of a failed \<open>execSync\<close>.
\<close>

definition lint_command :: "host \<Rightarrow> config \<Rightarrow> TextDocument \<Rightarrow> LogEntry list \<Rightarrow> LogEntry list \<times> (exn + invocation)" where
  "lint_command h cfg doc lg0 =
     (let lg1 = lg0 @ [(''verilator lint requested'', None)];
          docUri = fsPath doc;
          lastIndex = (if isWindows h then lastIndexOf docUri BACKSLASH else lastIndexOf docUri CHR ''/'');
          docFolder = substr0 docUri lastIndex;
          runLocation = (if runAtFileLocation cfg then Some docFolder else rootPath h);
          svArgs = (if languageId doc = ''systemverilog'' then ''-sv'' else []);
          verilator = ''verilator''
      in if isWindows h then
           if useWSL cfg then
             (case execSync h (''wsl wslpath '' @ [QUOTE] @ docUri @ [QUOTE]) of
                None \<Rightarrow> (lg1, Inl ExecSyncError)
              | Some out1 \<Rightarrow>
                  (let docUri' = strip_newlines out1;
                       lg2 = lg1 @ [(''Rewrote docUri to '' @ docUri' @ '' for WSL'', Some info)]
                   in case execSync h (''wsl wslpath '' @ [QUOTE] @ docFolder @ [QUOTE]) of
                        None \<Rightarrow> (lg2, Inl ExecSyncError)
                      | Some out2 \<Rightarrow>
                          (let docFolder' = strip_newlines out2;
                               lg3 = lg2 @ [(''Rewrote docFolder to '' @ docFolder' @ '' for WSL'', Some info)];
                               c = assemble h cfg (''wsl '' @ verilator) svArgs docFolder' docUri'
                           in (lg3 @ [(c, Some command)], Inr \<lparr>cmd = c, cwd = runLocation\<rparr>))))
           else
             (let c = assemble h cfg (verilator @ ''_bin.exe'') svArgs
                        (replace_backslashes docFolder) (replace_backslashes docUri)
              in (lg1 @ [(c, Some command)], Inr \<lparr>cmd = c, cwd = runLocation\<rparr>))
         else
           (let c = assemble h cfg verilator svArgs docFolder docUri
            in (lg1 @ [(c, Some command)], Inr \<lparr>cmd = c, cwd = runLocation\<rparr>)))"

text \<open>The number of diagnostics held in \<open>diagnostics\<close>, over all files.\<close>

fun count_diagnostics :: "Diagnostics \<Rightarrow> nat" where
  "count_diagnostics [] = 0"
| "count_diagnostics ((k, ds) # rest) = length ds + count_diagnostics rest"

section \<open>Facts about the matcher\<close>

declare ms.simps(9) [simp del]

declare exec_from.simps [simp del]

lemma in_one: "(s', c') \<in> set (one p s c) \<longleftrightarrow> (\<exists>x. s = x # s' \<and> p x \<and> c' = c)"
  by (cases s) auto

lemma in_Seq:
  "x \<in> set (ms (Seq r1 r2) s c) \<longleftrightarrow> (\<exists>s1 c1. (s1, c1) \<in> set (ms r1 s c) \<and> x \<in> set (ms r2 s1 c1))"
  by auto

lemma in_Grp:
  "(s', c') \<in> set (ms (Grp n r) s c) \<longleftrightarrow>
     (\<exists>c1. (s', c1) \<in> set (ms r s c) \<and> c' = c1(n := Some (take (length s - length s') s)))"
  by auto

lemma in_Star:
  "x \<in> set (ms (Star r) s c) \<longleftrightarrow>
     x = (s, c) \<or> (\<exists>s1 c1. (s1, c1) \<in> set (ms r s (clear (groups_of r) c)) \<and> length s1 < length s
                      \<and> x \<in> set (ms (Star r) s1 c1))"
  by (subst ms.simps) (auto split: if_splits)

lemma in_Plus:
  "x \<in> set (ms (Plus r) s c) \<longleftrightarrow>
     (\<exists>s1 c1. (s1, c1) \<in> set (ms r s (clear (groups_of r) c)) \<and> x \<in> set (ms (Star r) s1 c1))"
  by auto

lemma in_Opt:
  "x \<in> set (ms (Opt r) s c) \<longleftrightarrow>
     x = (s, c) \<or> (x \<in> set (ms r s (clear (groups_of r) c)) \<and> length (fst x) < length s)"
  by auto

lemma ms_suffix: "(s', c') \<in> set (ms r s c) \<Longrightarrow> suffix s' s"
proof (induction r s c arbitrary: s' c' rule: ms.induct)
  case (7 r1 r2 s c)
  from "7.prems" obtain s1 c1 where a: "(s1, c1) \<in> set (ms r1 s c)" and b: "(s', c') \<in> set (ms r2 s1 c1)"
    unfolding in_Seq by blast
  from "7.IH"(1)[OF a] "7.IH"(2)[OF a refl b] show ?case by (rule suffix_order.trans[rotated])
next
  case (8 n r s c)
  then show ?case unfolding in_Grp by blast
next
  case (9 r s c)
  from "9.prems" show ?case
  proof (subst (asm) in_Star, elim disjE exE conjE)
    assume "(s', c') = (s, c)" then show ?thesis by simp
  next
    fix s1 c1 assume a: "(s1, c1) \<in> set (ms r s (clear (groups_of r) c))" and l: "length s1 < length s"
      and b: "(s', c') \<in> set (ms (Star r) s1 c1)"
    from "9.IH"(1)[OF a] "9.IH"(2)[OF a refl l b] show ?thesis by (rule suffix_order.trans[rotated])
  qed
next
  case (10 r s c)
  from "10.prems" obtain s1 c1 where a: "(s1, c1) \<in> set (ms r s (clear (groups_of r) c))"
    and b: "(s', c') \<in> set (ms (Star r) s1 c1)"
    unfolding in_Plus by blast
  from "10.IH"(1)[OF a] "10.IH"(2)[OF a refl b] show ?case by (rule suffix_order.trans[rotated])
next
  case (11 r s c)
  from "11.prems" show ?case unfolding in_Opt using "11.IH" by auto
qed (auto simp: in_one suffix_Cons)

lemma ms_frame: "(s', c') \<in> set (ms r s c) \<Longrightarrow> n \<notin> set (groups_of r) \<Longrightarrow> c' n = c n"
proof (induction r s c arbitrary: s' c' rule: ms.induct)
  case (7 r1 r2 s c)
  from "7.prems" obtain s1 c1 where a: "(s1, c1) \<in> set (ms r1 s c)" and b: "(s', c') \<in> set (ms r2 s1 c1)"
    unfolding in_Seq by blast
  from "7.prems"(2) have n1: "n \<notin> set (groups_of r1)" and n2: "n \<notin> set (groups_of r2)" by auto
  from "7.IH"(1)[OF a n1] "7.IH"(2)[OF a refl b n2] show ?case by simp
next
  case (8 m r s c)
  from "8.prems" obtain c1 where a: "(s', c1) \<in> set (ms r s c)"
     and c': "c' = c1(m := Some (take (length s - length s') s))"
    unfolding in_Grp by blast
  from "8.prems"(2) have "n \<noteq> m" and n1: "n \<notin> set (groups_of r)" by auto
  with "8.IH"[OF a n1] c' show ?case by simp
next
  case (9 r s c)
  from "9.prems"(2) have n1: "n \<notin> set (groups_of r)" by simp
  from "9.prems"(1) show ?case
  proof (subst (asm) in_Star, elim disjE exE conjE)
    assume "(s', c') = (s, c)" then show ?thesis by simp
  next
    fix s1 c1 assume a: "(s1, c1) \<in> set (ms r s (clear (groups_of r) c))" and l: "length s1 < length s"
      and b: "(s', c') \<in> set (ms (Star r) s1 c1)"
    from "9.IH"(1)[OF a n1] "9.IH"(2)[OF a refl l b "9.prems"(2)] n1 show ?thesis by (simp add: clear_def)
  qed
next
  case (10 r s c)
  from "10.prems"(2) have n1: "n \<notin> set (groups_of r)" and n2: "n \<notin> set (groups_of (Star r))" by simp_all
  from "10.prems" obtain s1 c1 where a: "(s1, c1) \<in> set (ms r s (clear (groups_of r) c))"
    and b: "(s', c') \<in> set (ms (Star r) s1 c1)"
    unfolding in_Plus by blast
  from "10.IH"(1)[OF a n1] "10.IH"(2)[OF a refl b n2] n1 show ?case by (simp add: clear_def)
next
  case (11 r s c)
  from "11.prems"(2) have n1: "n \<notin> set (groups_of r)" by simp
  from "11.prems"(1) show ?case unfolding in_Opt using "11.IH"[OF _ n1] n1 by (auto simp: clear_def)
qed (auto simp: in_one)

lemma star_single:
  assumes single: "\<And>s c. ms r s c = one p s c" and g: "groups_of r = []"
  shows "(s', c') \<in> set (ms (Star r) s c) \<Longrightarrow> c' = c \<and> (\<exists>w. s = w @ s' \<and> list_all p w)"
proof (induction "length s" arbitrary: s rule: less_induct)
  case less
  from less.prems show ?case
  proof (subst (asm) in_Star, elim disjE exE conjE)
    assume "(s', c') = (s, c)" then show ?thesis by simp
  next
    fix s1 c1 assume a: "(s1, c1) \<in> set (ms r s (clear (groups_of r) c))" and l: "length s1 < length s"
      and b: "(s', c') \<in> set (ms (Star r) s1 c1)"
    from a obtain x where x: "s = x # s1" "p x" "c1 = c"
      by (auto simp: single g clear_def in_one)
    from less.hyps[OF l] b x(3) obtain w where "c' = c" "s1 = w @ s'" "list_all p w" by blast
    with x show ?thesis by (intro conjI exI[of _ "x # w"]) simp_all
  qed
qed

lemma plus_single:
  assumes single: "\<And>s c. ms r s c = one p s c" and g: "groups_of r = []"
    and m: "(s', c') \<in> set (ms (Plus r) s c)"
  shows "c' = c \<and> (\<exists>w. s = w @ s' \<and> w \<noteq> [] \<and> list_all p w)"
proof -
  from m obtain s1 c1 where a: "(s1, c1) \<in> set (ms r s (clear (groups_of r) c))"
    and b: "(s', c') \<in> set (ms (Star r) s1 c1)"
    unfolding in_Plus by blast
  from a obtain x where x: "s = x # s1" "p x" "c1 = c"
    by (auto simp: single g clear_def in_one)
  from star_single[OF single g b] obtain w where "c' = c1" "s1 = w @ s'" "list_all p w" by blast
  with x show ?thesis by (intro conjI exI[of _ "x # w"]) simp_all
qed

lemma grp_plus_digit:
  assumes "(s', c') \<in> set (ms (Grp n (Plus Digit)) s c)"
  shows "\<exists>w. c' n = Some w \<and> w \<noteq> [] \<and> list_all is_digit w"
proof -
  from assms obtain c1 where a: "(s', c1) \<in> set (ms (Plus Digit) s c)"
    and c': "c' = c1(n := Some (take (length s - length s') s))"
    unfolding in_Grp by blast
  have "c1 = c \<and> (\<exists>w. s = w @ s' \<and> w \<noteq> [] \<and> list_all is_digit w)"
    by (rule plus_single[OF _ _ a]) simp_all
  then obtain w where "s = w @ s'" "w \<noteq> []" "list_all is_digit w" by blast
  with c' show ?thesis by simp
qed

lemma grp_sets: "(s', c') \<in> set (ms (Grp n r) s c) \<Longrightarrow> \<exists>w. c' n = Some w"
  unfolding in_Grp by auto

lemma in_SeqD:
  "x \<in> set (ms (Seq r1 r2) s c) \<Longrightarrow> \<exists>s1 c1. (s1, c1) \<in> set (ms r1 s c) \<and> x \<in> set (ms r2 s1 c1)"
  by (simp only: in_Seq)

lemma re_captures:
  assumes m: "(s', c') \<in> set (ms re s (\<lambda>_. None))"
  shows "length s' < length s
       \<and> (\<exists>g1. c' 1 = Some g1) \<and> (\<exists>g3. c' 3 = Some g3) \<and> (\<exists>g6. c' 6 = Some g6)
       \<and> (\<exists>g4. c' 4 = Some g4 \<and> g4 \<noteq> [] \<and> list_all is_digit g4)
       \<and> (c' 5 = None \<or> (\<exists>g5. c' 5 = Some g5 \<and> g5 \<noteq> [] \<and> list_all is_digit g5))"
proof -
  let ?c0 = "\<lambda>_::nat. None :: string option"
  let ?t10 = "Seq (Star Space) re_message"
  let ?t9 = "Seq (Opt re_column) ?t10"
  let ?t8 = "Seq (Lit CHR '':'') ?t9"
  let ?t7 = "Seq (Grp 4 (Plus Digit)) ?t8"
  let ?t6 = "Seq (Lit CHR '':'') ?t7"
  let ?t5 = "Seq re_path ?t6"
  let ?t4 = "Seq (Star Space) ?t5"
  let ?t3 = "Seq (Lit CHR '':'') ?t4"
  let ?t2 = "Seq (Opt re_code) ?t3"
  let ?t1 = "Seq (Grp 1 (Plus Word)) ?t2"
  from m have m0: "(s', c') \<in> set (ms (Seq (Lit CHR ''%'') ?t1) s ?c0)" by (simp only: re_def)
  from in_SeqD[OF m0] obtain s1 c1 where a1: "(s1, c1) \<in> set (ms (Lit CHR ''%'') s ?c0)" and b1: "(s', c') \<in> set (ms ?t1 s1 c1)"
    by blast
  from a1 have s1: "s = CHR ''%'' # s1" and c1: "c1 = ?c0" by (auto simp: in_one)
  from ms_suffix[OF b1] s1 have len: "length s' < length s"
    by (auto dest: suffix_length_le)
  from in_SeqD[OF b1] obtain s2 c2 where a2: "(s2, c2) \<in> set (ms (Grp 1 (Plus Word)) s1 c1)" and b2: "(s', c') \<in> set (ms ?t2 s2 c2)"
    by blast
  have g1: "\<exists>g1. c' 1 = Some g1"
    using grp_sets[OF a2] ms_frame[OF b2, of 1] by (simp add: re_code_def re_path_def re_column_def re_message_def)
  have c2_5: "c2 5 = None" using ms_frame[OF a2, of 5] c1 by simp
  from in_SeqD[OF b2] obtain s3 c3 where a3: "(s3, c3) \<in> set (ms (Opt re_code) s2 c2)" and b3: "(s', c') \<in> set (ms ?t3 s3 c3)"
    by blast
  have c3_5: "c3 5 = None" using ms_frame[OF a3, of 5] c2_5 by (simp add: re_code_def)
  from in_SeqD[OF b3] obtain s4 c4 where a4: "(s4, c4) \<in> set (ms (Lit CHR '':'') s3 c3)" and b4: "(s', c') \<in> set (ms ?t4 s4 c4)"
    by blast
  have c4_5: "c4 5 = None" using ms_frame[OF a4, of 5] c3_5 by simp
  from in_SeqD[OF b4] obtain s5 c5 where a5: "(s5, c5) \<in> set (ms (Star Space) s4 c4)" and b5: "(s', c') \<in> set (ms ?t5 s5 c5)"
    by blast
  have c5_5: "c5 5 = None" using ms_frame[OF a5, of 5] c4_5 by simp
  from in_SeqD[OF b5] obtain s6 c6 where a6: "(s6, c6) \<in> set (ms re_path s5 c5)" and b6: "(s', c') \<in> set (ms ?t6 s6 c6)"
    by blast
  have c6_5: "c6 5 = None" using ms_frame[OF a6, of 5] c5_5 by (simp add: re_path_def)
  have g3: "\<exists>g3. c' 3 = Some g3"
    using grp_sets[OF a6[unfolded re_path_def]] ms_frame[OF b6, of 3] by (simp add: re_column_def re_message_def)
  from in_SeqD[OF b6] obtain s7 c7 where a7: "(s7, c7) \<in> set (ms (Lit CHR '':'') s6 c6)" and b7: "(s', c') \<in> set (ms ?t7 s7 c7)"
    by blast
  have c7_5: "c7 5 = None" using ms_frame[OF a7, of 5] c6_5 by simp
  from in_SeqD[OF b7] obtain s8 c8 where a8: "(s8, c8) \<in> set (ms (Grp 4 (Plus Digit)) s7 c7)" and b8: "(s', c') \<in> set (ms ?t8 s8 c8)"
    by blast
  have c8_5: "c8 5 = None" using ms_frame[OF a8, of 5] c7_5 by simp
  have g4: "\<exists>g4. c' 4 = Some g4 \<and> g4 \<noteq> [] \<and> list_all is_digit g4"
    using grp_plus_digit[OF a8] ms_frame[OF b8, of 4] by (simp add: re_column_def re_message_def)
  from in_SeqD[OF b8] obtain s9 c9 where a9: "(s9, c9) \<in> set (ms (Lit CHR '':'') s8 c8)" and b9: "(s', c') \<in> set (ms ?t9 s9 c9)"
    by blast
  have c9_5: "c9 5 = None" using ms_frame[OF a9, of 5] c8_5 by simp
  from in_SeqD[OF b9] obtain s10 c10 where a10: "(s10, c10) \<in> set (ms (Opt re_column) s9 c9)" and b10: "(s', c') \<in> set (ms ?t10 s10 c10)"
    by blast
  have c'_5: "c' 5 = c10 5" using ms_frame[OF b10, of 5] by (simp add: re_message_def)
  have c10_5: "c10 5 = None \<or> (\<exists>g5. c10 5 = Some g5 \<and> g5 \<noteq> [] \<and> list_all is_digit g5)"
    using a10
  proof (subst (asm) in_Opt, elim disjE conjE)
    assume "(s10, c10) = (s9, c9)" with c9_5 show ?thesis by simp
  next
    assume "(s10, c10) \<in> set (ms re_column s9 (clear (groups_of re_column) c9))"
    then obtain sa ca sb cb where "(sa, ca) \<in> set (ms (Star Space) s9 (clear (groups_of re_column) c9))"
      and gb: "(sb, cb) \<in> set (ms (Grp 5 (Plus Digit)) sa ca)"
      and l: "(s10, c10) \<in> set (ms (Lit CHR '':'') sb cb)"
      unfolding re_column_def in_Seq by blast
    from l have "c10 = cb" by (auto simp: in_one)
    with grp_plus_digit[OF gb] show ?thesis by simp
  qed
  from in_SeqD[OF b10] obtain s11 c11 where b11: "(s', c') \<in> set (ms re_message s11 c11)"
    by blast
  have g6: "\<exists>g6. c' 6 = Some g6" using grp_sets[OF b11[unfolded re_message_def]] .
  from len g1 g3 g4 g6 c'_5 c10_5 show ?thesis by simp
qed

section \<open>Facts about the match array and the numbers\<close>

lemma groups_of_re: "groups_of re = [1, 2, 3, 4, 5, 6]"
  by (simp add: re_def re_code_def re_path_def re_column_def re_message_def)

lemma re_array: "map c [Suc 0 ..< Suc (length (groups_of re))] = [c 1, c 2, c 3, c 4, c 5, c 6]"
  by (simp add: groups_of_re upt_rec eval_nat_numeral)

lemma to_double_not_NaN: "to_double i \<noteq> NaN"
  by (simp add: to_double_def split: option.splits)

lemma minus_one_NaN: "minus_one x = NaN \<longleftrightarrow> x = NaN"
  by (cases x) (simp_all add: to_double_not_NaN)

lemma Number_digits: "list_all is_digit g \<Longrightarrow> Number other (Some g) = to_double (decimal g)"
  by (simp add: Number_def)

lemma exec_shape:
  "exec_from re i s = Some (j, rex) \<Longrightarrow>
     \<exists>m g1 g2 g3 g4 g5 g6. rex = [Some m, Some g1, g2, Some g3, Some g4, g5, Some g6]
        \<and> m \<noteq> [] \<and> g4 \<noteq> [] \<and> list_all is_digit g4
        \<and> (\<forall>g. g5 = Some g \<longrightarrow> g \<noteq> [] \<and> list_all is_digit g)"
proof (induction s arbitrary: i)
  case Nil
  then show ?case
  proof (cases "ms re [] (\<lambda>_. None)")
    case Nil
    with Nil.prems show ?thesis by (simp add: exec_from.simps)
  next
    case (Cons p ps)
    obtain s' c' where p: "p = (s', c')" by (cases p)
    with Cons have "(s', c') \<in> set (ms re [] (\<lambda>_. None))" by simp
    from re_captures[OF this] show ?thesis by simp
  qed
next
  case (Cons x xs)
  show ?case
  proof (cases "ms re (x # xs) (\<lambda>_. None)")
    case Nil
    with Cons.prems have "exec_from re (Suc i) xs = Some (j, rex)" by (simp add: exec_from.simps)
    from Cons.IH[OF this] show ?thesis .
  next
    case (Cons p ps)
    obtain s' c' where p: "p = (s', c')" by (cases p)
    with Cons have "(s', c') \<in> set (ms re (x # xs) (\<lambda>_. None))" by simp
    from re_captures[OF this] obtain g1 g3 g4 g6 where
      l: "length s' < length (x # xs)" and g: "c' 1 = Some g1" "c' 3 = Some g3" "c' 6 = Some g6"
        "c' 4 = Some g4" "g4 \<noteq> []" "list_all is_digit g4"
        and g5: "c' 5 = None \<or> (\<exists>g5. c' 5 = Some g5 \<and> g5 \<noteq> [] \<and> list_all is_digit g5)"
      by blast
    from Cons.prems Cons p have rex: "rex = [Some (take (length (x # xs) - length s') (x # xs)), c' 1, c' 2, c' 3, c' 4, c' 5, c' 6]"
      by (simp add: exec_from.simps re_array del: upt_Suc)
    from l have "take (length (x # xs) - length s') (x # xs) \<noteq> []" by auto
    with rex g g5 show ?thesis by auto
  qed
qed

lemma ms_re_no_percent: "s = [] \<or> hd s \<noteq> CHR ''%'' \<Longrightarrow> ms re s c = []"
  by (cases s) (auto simp: re_def)

lemma exec_no_percent: "CHR ''%'' \<notin> set s \<Longrightarrow> exec_from re i s = None"
proof (induction s arbitrary: i)
  case Nil
  then show ?case by (simp add: exec_from.simps ms_re_no_percent)
next
  case (Cons x xs)
  then have "ms re (x # xs) (\<lambda>_. None) = []" by (intro ms_re_no_percent) auto
  with Cons show ?case by (simp add: exec_from.simps)
qed

lemma parse_line_no_match:
  "exec_from re 0 line = None \<Longrightarrow> parse_line h cfg line acc = Inr acc"
  by (simp add: parse_line_def search_def)




lemma bitlen_bound: "0 < n \<Longrightarrow> 2 ^ (bitlen n - 1) \<le> n"
proof (induction n rule: bitlen.induct)
  case (1 n)
  show ?case
  proof (cases "n div 2 \<le> 0")
    case True
    with "1.prems" have "n = 1" by linarith
    then show ?thesis by (simp add: bitlen.simps)
  next
    case False
    then have pos: "0 < n div 2" by simp
    from "1.IH"[OF _ pos] "1.prems" have ih: "2 ^ (bitlen (n div 2) - 1) \<le> n div 2" by simp
    from pos have b: "0 < bitlen (n div 2)" by (subst bitlen.simps) simp
    have "bitlen n = Suc (bitlen (n div 2))" using "1.prems" by (subst bitlen.simps) simp
    then have "(2::int) ^ (bitlen n - 1) = 2 * 2 ^ (bitlen (n div 2) - 1)"
      using b by (cases "bitlen (n div 2)") simp_all
    also have "\<dots> \<le> 2 * (n div 2)" using ih by simp
    also have "\<dots> \<le> n" by simp
    finally show ?thesis .
  qed
qed

lemma round53_nonneg: "0 \<le> n \<Longrightarrow> round53 n = Some v \<Longrightarrow> 0 \<le> v"
  by (auto simp: round53_def Let_def pos_imp_zdiv_nonneg_iff split: if_splits)

lemma round53_pos:
  assumes "0 < n" "round53 n = Some v"
  shows "0 < v"
proof (cases "n < 2 ^ 53")
  case True
  with assms show ?thesis by (simp add: round53_def)
next
  case False
  define e where "e = bitlen n - 53"
  have "(2::int) ^ e \<le> 2 ^ (bitlen n - 1)" unfolding e_def by (rule power_increasing) simp_all
  also have "\<dots> \<le> n" by (rule bitlen_bound[OF assms(1)])
  finally have "2 ^ e \<le> n" .
  then have q: "0 < n div 2 ^ e" using pos_imp_zdiv_pos_iff[of "2 ^ e" n] by simp
  then have "0 < (n div 2 ^ e) * 2 ^ e" and "0 < (n div 2 ^ e + 1) * 2 ^ e" by simp_all
  with assms(2) False show ?thesis
    by (auto simp: round53_def Let_def e_def split: if_splits)
qed

lemma round53_small: "n < 2 ^ 53 \<Longrightarrow> round53 n = Some n"
  by (simp add: round53_def)

lemma to_double_small: "\<bar>i\<bar> < 2 ^ 53 \<Longrightarrow> to_double i = Num i"
  by (simp add: to_double_def round53_small)

lemma to_double_ge0: "0 \<le> i \<Longrightarrow> js_le (Num 0) (to_double i)"
  by (auto simp: to_double_def split: option.splits dest: round53_nonneg)

lemma minus_one_zero: "minus_one (to_double 0) = Num (- 1)"
  by (simp add: to_double_small)

lemma minus_one_pos:
  assumes "0 < i"
  shows "js_le (Num 0) (minus_one (to_double i))"
proof (cases "round53 \<bar>i\<bar>")
  case None
  with assms show ?thesis by (simp add: to_double_def)
next
  case (Some v)
  with assms round53_pos[of i v] have "0 < v" by simp
  then have "js_le (Num 0) (to_double (v - 1))" by (intro to_double_ge0) simp
  with Some assms show ?thesis by (simp add: to_double_def)
qed

lemma minus_one_ge:
  assumes "0 \<le> i"
  shows "js_le (Num (- 1)) (minus_one (to_double i))"
proof (cases "i = 0")
  case True
  then show ?thesis by (simp add: minus_one_zero)
next
  case False
  with assms have "0 < i" by simp
  from minus_one_pos[OF this] show ?thesis
    by (cases "minus_one (to_double i)") simp_all
qed





lemma in_push_at:
  "(f, ds) \<in> set (push_at filename d dg) \<Longrightarrow> d' \<in> set ds \<Longrightarrow>
     d' = d \<or> (\<exists>ds0. (f, ds0) \<in> set dg \<and> d' \<in> set ds0)"
  by (induction dg rule: count_diagnostics.induct) (auto split: if_splits)

lemma in_add_diagnostic:
  "(f, ds) \<in> set (add_diagnostic filename d dg) \<Longrightarrow> d' \<in> set ds \<Longrightarrow>
     d' = d \<or> (\<exists>ds0. (f, ds0) \<in> set dg \<and> d' \<in> set ds0)"
  by (auto simp: add_diagnostic_def dest: in_push_at split: if_splits)

lemma in_collection_set:
  "(f, ds) \<in> set (collection_set h filename v coll) \<Longrightarrow> (f, ds) = (filename, v) \<or> (f, ds) \<in> set coll"
  by (induction coll rule: count_diagnostics.induct) (auto split: if_splits)

lemma in_publish:
  "(f, ds) \<in> set (publish h dg coll) \<Longrightarrow> (f, ds) \<in> set dg \<or> (f, ds) \<in> set coll"
  by (induction h dg coll rule: publish.induct) (auto dest: in_collection_set)



section \<open>Facts about the range and the body of the loop\<close>

lemma js_lt_irrefl: "\<not> js_lt x x"
  by (cases x) simp_all

lemma js_le_zero_iff: "x \<noteq> NaN \<Longrightarrow> js_le (Num 0) x \<longleftrightarrow> \<not> js_lt x (Num 0)"
  by (cases x) auto

lemma MAX_VALUE_nonneg: "\<not> js_lt MAX_VALUE (Num 0)"
  by (simp add: MAX_VALUE_def)


text \<open>The range of line 173: both positions on the line \<open>l\<close>, from column \<open>c\<close> to the largest number.\<close>

lemma new_Range_line:
  "new_Range l c l MAX_VALUE =
     (if js_lt l (Num 0) \<or> js_lt c (Num 0) then Inl IllegalArgument
      else Inr \<lparr>startLine = l,
                startCharacter = (if js_lt c MAX_VALUE then c else MAX_VALUE),
                endLine = l,
                endCharacter = (if js_lt c MAX_VALUE then MAX_VALUE else c)\<rparr>)"
  by (simp add: new_Range_def isBefore_def js_lt_irrefl MAX_VALUE_nonneg)

lemma small_before_MAX: "\<bar>i\<bar> < 2 ^ 53 \<Longrightarrow> js_lt (Num i) MAX_VALUE"
proof -
  assume a: "\<bar>i\<bar> < 2 ^ 53"
  have "(2::int) ^ 53 \<le> (2 ^ 53 - 1) * 2 ^ 971" by simp
  with a have "i < (2 ^ 53 - 1) * 2 ^ 971" by linarith
  then show ?thesis by (simp add: MAX_VALUE_def)
qed

lemma diagnostic_of_shape:
  assumes "list_all is_digit g4" and "\<forall>g. g5 = Some g \<longrightarrow> list_all is_digit g"
  shows "diagnostic_of h cfg [Some m, Some g1, g2, Some g3, Some g4, g5, Some g6] =
     (case resolve_filename h cfg g3 of
        Inl e \<Rightarrow> Inl e
      | Inr filename \<Rightarrow>
          (case new_Range (minus_one (to_double (decimal g4)))
                  (case g5 of None \<Rightarrow> Num 0 | Some g \<Rightarrow> minus_one (to_double (decimal g)))
                  (minus_one (to_double (decimal g4))) MAX_VALUE of
             Inl e \<Rightarrow> Inl e
           | Inr r \<Rightarrow>
               Inr (Some (filename,
                 \<lparr>severity = getSeverity g1, range_vs = r, message = g6,
                  code = (case g2 of Some c \<Rightarrow> drop 1 c | None \<Rightarrow> ''verilator''),
                  source = ''verilator''\<rparr>))))"
proof (cases g5)
  case None
  with assms(1) show ?thesis
    by (simp add: diagnostic_of_def Let_def Number_digits isNaN_def minus_one_NaN to_double_not_NaN
        Number_def split: sum.splits)
next
  case (Some g)
  with assms(2) have "list_all is_digit g" by simp
  with assms(1) Some show ?thesis
    by (simp add: diagnostic_of_def Let_def Number_digits isNaN_def minus_one_NaN to_double_not_NaN
        split: sum.splits)
qed

lemma match_exec: "match line re = Some rex \<longleftrightarrow> (\<exists>j. exec_from re 0 line = Some (j, rex))"
  by (auto simp: match_def)

text \<open>
  What a matched line does: the match array has its seven elements, the line number a
  run of digits and the column, when there, another; the body is \<open>diagnostic_of\<close> on the
  array, and the line adds the diagnostic it builds.
\<close>

lemma parse_line_matched:
  assumes "match line re = Some rex"
  shows "\<exists>m g1 g2 g3 g4 g5 g6.
           rex = [Some m, Some g1, g2, Some g3, Some g4, g5, Some g6]
         \<and> g4 \<noteq> [] \<and> list_all is_digit g4
         \<and> (\<forall>g. g5 = Some g \<longrightarrow> g \<noteq> [] \<and> list_all is_digit g)
         \<and> (\<forall>h cfg acc.
               parse_line h cfg line acc =
                 (case diagnostic_of h cfg rex of
                    Inl e \<Rightarrow> Inl e
                  | Inr None \<Rightarrow> Inr acc
                  | Inr (Some (filename, d)) \<Rightarrow> Inr (add_diagnostic filename d (fst acc), snd acc)))"
proof -
  from assms obtain j where e: "exec_from re 0 line = Some (j, rex)" unfolding match_exec by blast
  from exec_shape[OF e] obtain m g1 g2 g3 g4 g5 g6 where
    rex: "rex = [Some m, Some g1, g2, Some g3, Some g4, g5, Some g6]" and m: "m \<noteq> []"
    and g4: "g4 \<noteq> []" "list_all is_digit g4"
    and g5: "\<forall>g. g5 = Some g \<longrightarrow> g \<noteq> [] \<and> list_all is_digit g" by blast
  have p: "parse_line h cfg line acc =
                 (case diagnostic_of h cfg rex of
                    Inl e \<Rightarrow> Inl e
                  | Inr None \<Rightarrow> Inr acc
                  | Inr (Some (filename, d)) \<Rightarrow> Inr (add_diagnostic filename d (fst acc), snd acc))"
    for h cfg acc
    using e m unfolding rex by (simp add: parse_line_def search_def match_def)
  from rex g4 g5 p show ?thesis by blast
qed

lemma parse_line_on_match:
  assumes "match line re = Some rex"
  shows "parse_line h cfg line acc =
           (case diagnostic_of h cfg rex of
              Inl e \<Rightarrow> Inl e
            | Inr None \<Rightarrow> Inr acc
            | Inr (Some (filename, d)) \<Rightarrow> Inr (add_diagnostic filename d (fst acc), snd acc))"
  using parse_line_matched[OF assms] by blast

lemma parse_line_built:
  "match line re = Some rex \<Longrightarrow> diagnostic_of h cfg rex = Inr (Some (filename, d)) \<Longrightarrow>
     parse_line h cfg line acc = Inr (add_diagnostic filename d (fst acc), snd acc)"
  by (simp add: parse_line_on_match)

text \<open>The body on a matched line never takes the branch that drops the diagnostic.\<close>

lemma diagnostic_of_matched:
  assumes "match line re = Some rex"
  shows "diagnostic_of h cfg rex \<noteq> Inr None"
proof -
  from parse_line_matched[OF assms] obtain m g1 g2 g3 g4 g5 g6 where
    rex: "rex = [Some m, Some g1, g2, Some g3, Some g4, g5, Some g6]"
    and g4: "list_all is_digit g4"
    and g5: "\<forall>g. g5 = Some g \<longrightarrow> g \<noteq> [] \<and> list_all is_digit g" by blast
  from g5 have g5': "\<forall>g. g5 = Some g \<longrightarrow> list_all is_digit g" by blast
  show ?thesis
    unfolding rex diagnostic_of_shape[OF g4 g5'] by (simp split: sum.splits)
qed

text \<open>
  A diagnostic built on a matched line, read off the match array: its file name, the
  line \<open>l\<close> and the column \<open>c\<close> given to the range, neither negative.
\<close>

lemma diagnostic_of_built:
  assumes "match line re = Some rex" and "diagnostic_of h cfg rex = Inr (Some (filename, d))"
  shows "\<exists>m g1 g2 g3 g4 g5 g6 l c.
           rex = [Some m, Some g1, g2, Some g3, Some g4, g5, Some g6]
         \<and> g4 \<noteq> [] \<and> list_all is_digit g4
         \<and> (\<forall>g. g5 = Some g \<longrightarrow> g \<noteq> [] \<and> list_all is_digit g)
         \<and> resolve_filename h cfg g3 = Inr filename
         \<and> l = minus_one (to_double (decimal g4))
         \<and> c = (case g5 of None \<Rightarrow> Num 0 | Some g \<Rightarrow> minus_one (to_double (decimal g)))
         \<and> \<not> js_lt l (Num 0) \<and> \<not> js_lt c (Num 0)
         \<and> d = \<lparr>severity = getSeverity g1,
                 range_vs = \<lparr>startLine = l,
                             startCharacter = (if js_lt c MAX_VALUE then c else MAX_VALUE),
                             endLine = l,
                             endCharacter = (if js_lt c MAX_VALUE then MAX_VALUE else c)\<rparr>,
                 message = g6,
                 code = (case g2 of Some c \<Rightarrow> drop 1 c | None \<Rightarrow> ''verilator''),
                 source = ''verilator''\<rparr>"
proof -
  from parse_line_matched[OF assms(1)] obtain m g1 g2 g3 g4 g5 g6 where
    rex: "rex = [Some m, Some g1, g2, Some g3, Some g4, g5, Some g6]"
    and g4: "g4 \<noteq> []" "list_all is_digit g4"
    and g5: "\<forall>g. g5 = Some g \<longrightarrow> g \<noteq> [] \<and> list_all is_digit g" by blast
  from g5 have g5': "\<forall>g. g5 = Some g \<longrightarrow> list_all is_digit g" by blast
  let ?l = "minus_one (to_double (decimal g4))"
  let ?c = "case g5 of None \<Rightarrow> Num 0 | Some g \<Rightarrow> minus_one (to_double (decimal g))"
  from assms(2) have
    "resolve_filename h cfg g3 = Inr filename \<and> \<not> js_lt ?l (Num 0) \<and> \<not> js_lt ?c (Num 0)
     \<and> d = \<lparr>severity = getSeverity g1,
                 range_vs = \<lparr>startLine = ?l,
                             startCharacter = (if js_lt ?c MAX_VALUE then ?c else MAX_VALUE),
                             endLine = ?l,
                             endCharacter = (if js_lt ?c MAX_VALUE then MAX_VALUE else ?c)\<rparr>,
                 message = g6,
                 code = (case g2 of Some c \<Rightarrow> drop 1 c | None \<Rightarrow> ''verilator''),
                 source = ''verilator''\<rparr>"
    unfolding rex diagnostic_of_shape[OF g4(2) g5'] new_Range_line
    by (auto split: sum.splits if_splits)
  with rex g4 g5 show ?thesis by blast
qed

section \<open>The claims\<close>

subsection \<open>Severity classification\<close>

lemma startsWith_prefix: "startsWith s p \<longleftrightarrow> prefix p s"
  unfolding startsWith_def
  by (metis append_take_drop_id prefix_def append_eq_conv_conj)

text \<open>
  C6. For every severity keyword, \<open>getSeverity\<close> returns \<open>Error\<close> if the keyword starts with
  "Error", \<open>Warning\<close> if it starts with "Warning", and \<open>Information\<close> for every other
  keyword.
\<close>

theorem getSeverity_classifies:
  "(prefix ''Error'' s \<longrightarrow> getSeverity s = Error)
   \<and> (prefix ''Warning'' s \<longrightarrow> getSeverity s = Warning)
   \<and> (\<not> prefix ''Error'' s \<and> \<not> prefix ''Warning'' s \<longrightarrow> getSeverity s = Information)"
proof -
  have "\<not> (prefix ''Error'' s \<and> prefix ''Warning'' s)"
    by (auto simp: prefix_def)
  then show ?thesis
    by (auto simp: getSeverity_def startsWith_prefix)
qed

theorem getSeverity_classifies_witness:
  "prefix ''Error'' ''Error-UNSUPPORTED'' \<and> getSeverity ''Error-UNSUPPORTED'' = Error
   \<and> prefix ''Warning'' ''Warning'' \<and> getSeverity ''Warning'' = Warning
   \<and> \<not> prefix ''Error'' ''Info'' \<and> \<not> prefix ''Warning'' ''Info'' \<and> getSeverity ''Info'' = Information"
  using getSeverity_classifies [of "''Error-UNSUPPORTED''"] getSeverity_classifies [of "''Warning''"]
    getSeverity_classifies [of "''Info''"]
  by simp

subsection \<open>The two scenario lines\<close>

lemma exec_scenario_A:
  "exec_from re 0 ''%Error: /tmp/foo.sv:10: syntax error'' =
     Some (0, [Some ''%Error: /tmp/foo.sv:10: syntax error'', Some ''Error'', None,
               Some ''/tmp/foo.sv'', Some ''10'', None, Some ''syntax error''])"
  by code_simp

lemma exec_scenario_B:
  "exec_from re 0 ''%Warning-WIDTH: foo.sv:5:3: bit width mismatch'' =
     Some (0, [Some ''%Warning-WIDTH: foo.sv:5:3: bit width mismatch'', Some ''Warning'',
               Some ''-WIDTH'', Some ''foo.sv'', Some ''5'', Some ''3'', Some ''bit width mismatch''])"
  by code_simp

lemma split_scenario_A:
  "split_lines ''%Error: /tmp/foo.sv:10: syntax error'' = [''%Error: /tmp/foo.sv:10: syntax error'']"
  by code_simp

lemma split_scenario_B:
  "split_lines ''%Warning-WIDTH: foo.sv:5:3: bit width mismatch'' =
     [''%Warning-WIDTH: foo.sv:5:3: bit width mismatch'']"
  by code_simp

lemma numbers_scenarios:
  "minus_one (to_double (decimal ''10'')) = Num 9"
  "minus_one (to_double (decimal ''5'')) = Num 4"
  "minus_one (to_double (decimal ''3'')) = Num 2"
  by code_simp+

lemma digits_scenarios:
  "list_all is_digit ''10''" "list_all is_digit ''5''" "list_all is_digit ''3''"
  by code_simp+

lemma range_small:
  "0 \<le> a \<Longrightarrow> 0 \<le> b \<Longrightarrow> b < 2 ^ 53 \<Longrightarrow>
     new_Range (Num a) (Num b) (Num a) MAX_VALUE =
       Inr \<lparr>startLine = Num a, startCharacter = Num b, endLine = Num a, endCharacter = MAX_VALUE\<rparr>"
  by (simp add: new_Range_line small_before_MAX)

lemma severity_scenarios: "getSeverity ''Error'' = Error" "getSeverity ''Warning'' = Warning"
  by (simp_all add: getSeverity_def startsWith_def)

lemma posix_scenario_B:
  "posix_join [''/proj'', ''foo.sv''] = ''/proj/foo.sv''" "\<not> posix_isAbsolute ''foo.sv''"
  by code_simp+

lemma length_text_undefined: "''length'' \<notin> fst ` set dg \<Longrightarrow> length_text dg = ''undefined''"
  by (simp add: length_text_def map_of_eq_None_iff[THEN iffD2])

lemma diagnostic_scenario_A:
  "diagnostic_of h (cfg\<lparr>runAtFileLocation := True\<rparr>)
       [Some ''%Error: /tmp/foo.sv:10: syntax error'', Some ''Error'', None,
        Some ''/tmp/foo.sv'', Some ''10'', None, Some ''syntax error''] =
     Inr (Some (''/tmp/foo.sv'',
            \<lparr>severity = Error,
             range_vs = \<lparr>startLine = Num 9, startCharacter = Num 0,
                         endLine = Num 9, endCharacter = MAX_VALUE\<rparr>,
             message = ''syntax error'', code = ''verilator'', source = ''verilator''\<rparr>))"
proof -
  have "\<forall>g. (None :: string option) = Some g \<longrightarrow> list_all is_digit g" by simp
  from diagnostic_of_shape[OF digits_scenarios(1) this] show ?thesis
    by (simp add: numbers_scenarios resolve_filename_def range_small severity_scenarios)
qed

lemma diagnostic_scenario_B:
  "diagnostic_of (posix_host ''/proj'') (cfg\<lparr>runAtFileLocation := False\<rparr>)
       [Some ''%Warning-WIDTH: foo.sv:5:3: bit width mismatch'', Some ''Warning'',
        Some ''-WIDTH'', Some ''foo.sv'', Some ''5'', Some ''3'', Some ''bit width mismatch''] =
     Inr (Some (''/proj/foo.sv'',
            \<lparr>severity = Warning,
             range_vs = \<lparr>startLine = Num 4, startCharacter = Num 2,
                         endLine = Num 4, endCharacter = MAX_VALUE\<rparr>,
             message = ''bit width mismatch'', code = ''WIDTH'', source = ''verilator''\<rparr>))"
proof -
  have "\<forall>g. Some ''3'' = Some g \<longrightarrow> list_all is_digit g" using digits_scenarios(3) by blast
  from diagnostic_of_shape[OF digits_scenarios(2) this] show ?thesis
    by (simp add: numbers_scenarios resolve_filename_def range_small severity_scenarios
        posix_host_def posix_scenario_B)
qed

lemma parse_scenario_A:
  "parse_line h (cfg\<lparr>runAtFileLocation := True\<rparr>) ''%Error: /tmp/foo.sv:10: syntax error'' (dg, lg) =
     Inr (add_diagnostic ''/tmp/foo.sv''
            \<lparr>severity = Error,
             range_vs = \<lparr>startLine = Num 9, startCharacter = Num 0,
                         endLine = Num 9, endCharacter = MAX_VALUE\<rparr>,
             message = ''syntax error'', code = ''verilator'', source = ''verilator''\<rparr> dg, lg)"
  by (simp add: parse_line_def search_def match_def exec_scenario_A diagnostic_scenario_A)

lemma parse_scenario_B:
  "parse_line (posix_host ''/proj'') (cfg\<lparr>runAtFileLocation := False\<rparr>)
       ''%Warning-WIDTH: foo.sv:5:3: bit width mismatch'' (dg, lg) =
     Inr (add_diagnostic ''/proj/foo.sv''
            \<lparr>severity = Warning,
             range_vs = \<lparr>startLine = Num 4, startCharacter = Num 2,
                         endLine = Num 4, endCharacter = MAX_VALUE\<rparr>,
             message = ''bit width mismatch'', code = ''WIDTH'', source = ''verilator''\<rparr> dg, lg)"
  by (simp add: parse_line_def search_def match_def exec_scenario_B diagnostic_scenario_B)

text \<open>
  C4. Parsing the single line \<open>%Error: /tmp/foo.sv:10: syntax error\<close> with
  run-at-file-location enabled yields exactly one diagnostic: severity Error, code
  "verilator", file path "/tmp/foo.sv", line 9, column 0, message "syntax error". It holds
  on every host and for every value of the other settings.
\<close>

theorem scenario_A:
  "lint_callback h (cfg\<lparr>runAtFileLocation := True\<rparr>) None ''%Error: /tmp/foo.sv:10: syntax error'' st =
     Inr \<lparr>collection =
            [(''/tmp/foo.sv'',
              [\<lparr>severity = Error,
                range_vs = \<lparr>startLine = Num 9, startCharacter = Num 0,
                            endLine = Num 9, endCharacter = MAX_VALUE\<rparr>,
                message = ''syntax error'', code = ''verilator'', source = ''verilator''\<rparr>])],
          logs = logs st @ [(''undefined errors/warnings returned'', None)]\<rparr>"
  unfolding lint_callback_def split_scenario_A Let_def
  by (simp add: parse_scenario_A add_diagnostic_def length_text_undefined)

text \<open>
  C5. Parsing the single line \<open>%Warning-WIDTH: foo.sv:5:3: bit width mismatch\<close> with
  workspace root "/proj" and run-at-file-location disabled, on a host with the POSIX
  \<open>path\<close>, yields one diagnostic: severity Warning, code "WIDTH", file path
  "/proj/foo.sv", line 4, column 2, message "bit width mismatch".
\<close>

theorem scenario_B:
  "lint_callback (posix_host ''/proj'') (cfg\<lparr>runAtFileLocation := False\<rparr>) None
       ''%Warning-WIDTH: foo.sv:5:3: bit width mismatch'' st =
     Inr \<lparr>collection =
            [(''/proj/foo.sv'',
              [\<lparr>severity = Warning,
                range_vs = \<lparr>startLine = Num 4, startCharacter = Num 2,
                            endLine = Num 4, endCharacter = MAX_VALUE\<rparr>,
                message = ''bit width mismatch'', code = ''WIDTH'', source = ''verilator''\<rparr>])],
          logs = logs st @ [(''undefined errors/warnings returned'', None)]\<rparr>"
  unfolding lint_callback_def split_scenario_B Let_def
  by (simp add: parse_scenario_B add_diagnostic_def length_text_undefined)

subsection \<open>Lines without a percent sign\<close>

text \<open>
  C1, as stated, fails: a line of plain noise gives no diagnostic, and no log entry
  either. The line is skipped by the test \<open>line.search(re) !== -1\<close> before the branch that
  logs "failed to parse" can be reached.
\<close>

theorem noise_line_logs_nothing:
  "parse_line (posix_host ''/proj'')
       \<lparr>verilatorPath = [], verilatorArgs = [], runAtFileLocation = False, useWSL = False\<rparr>
       ''Top level design units:'' ([], []) = Inr ([], [])"
  by (simp add: parse_line_no_match exec_no_percent)

text \<open>
  C1, amended. For every input line that contains no \<open>%\<close>, the function run on the line
  changes nothing: no diagnostic is added and no log entry is written.
\<close>

theorem line_without_percent_is_skipped:
  "CHR ''%'' \<notin> set line \<Longrightarrow> parse_line h cfg line acc = Inr acc"
  by (simp add: parse_line_no_match exec_no_percent)

theorem line_without_percent_is_skipped_witness:
  "CHR ''%'' \<notin> set ''make: Nothing to be done'' \<and>
   parse_line (posix_host ''/proj'')
       \<lparr>verilatorPath = [], verilatorArgs = [], runAtFileLocation = True, useWSL = False\<rparr>
       ''make: Nothing to be done'' ([], [(''verilator lint requested'', None)]) =
     Inr ([], [(''verilator lint requested'', None)])"
  using line_without_percent_is_skipped [of "''make: Nothing to be done''" "posix_host ''/proj''"
      "\<lparr>verilatorPath = [], verilatorArgs = [], runAtFileLocation = True, useWSL = False\<rparr>"
      "([], [(''verilator lint requested'', None)])"]
  by simp

text \<open>No line at all makes the function write to the log: the branch that logs is dead.\<close>

lemma parse_line_keeps_log: "parse_line h cfg line acc = Inr acc' \<Longrightarrow> snd acc' = snd acc"
proof (cases "match line re")
  case None
  assume a: "parse_line h cfg line acc = Inr acc'"
  from None have "exec_from re 0 line = None" by (simp add: match_def)
  with a show ?thesis by (simp add: parse_line_no_match)
next
  case (Some rex)
  assume a: "parse_line h cfg line acc = Inr acc'"
  from parse_line_matched[OF Some] have
    "parse_line h cfg line acc =
       (case diagnostic_of h cfg rex of
          Inl e \<Rightarrow> Inl e
        | Inr None \<Rightarrow> Inr acc
        | Inr (Some (filename, d)) \<Rightarrow> Inr (add_diagnostic filename d (fst acc), snd acc))"
    by blast
  with a show ?thesis by (auto split: sum.splits option.splits)
qed

subsection \<open>An error reported to the callback\<close>








lemma callback_error_example:
  "lint_callback (posix_host ''/proj'')
       \<lparr>verilatorPath = [], verilatorArgs = [], runAtFileLocation = False, useWSL = False\<rparr>
       (Some ''Command failed'') ''%Warning-WIDTH: foo.sv:5:3: bit width mismatch''
       \<lparr>collection = [(''/proj/old.v'', [])], logs = []\<rparr> =
     Inr \<lparr>collection =
            [(''/proj/foo.sv'',
              [\<lparr>severity = Warning,
                range_vs = \<lparr>startLine = Num 4, startCharacter = Num 2,
                            endLine = Num 4, endCharacter = MAX_VALUE\<rparr>,
                message = ''bit width mismatch'', code = ''WIDTH'', source = ''verilator''\<rparr>])],
          logs = [(''Command failed'', Some error),
                  (''undefined errors/warnings returned'', None)]\<rparr>"
proof -
  note p = parse_scenario_B [of
      "\<lparr>verilatorPath = [], verilatorArgs = [], runAtFileLocation = False, useWSL = False\<rparr>",
      simplified]
  show ?thesis
    unfolding lint_callback_def split_scenario_B Let_def
    by (simp add: p add_diagnostic_def length_text_undefined)
qed





subsection \<open>The command line\<close>

lemma join6: "join sep [a, b, c, d, e, f] = a @ sep @ b @ sep @ c @ sep @ d @ sep @ e @ sep @ f"
  by simp

text \<open>
  C8, as stated, fails: with a Verilog document and no extra arguments the language flag
  and the extra arguments are empty strings, and \<open>join(' ')\<close> puts a space on each side of
  them, so the command has doubled separators.
\<close>

theorem empty_slots_double_the_separator:
  "lint_command (posix_host ''/w'')
       \<lparr>verilatorPath = [], verilatorArgs = [], runAtFileLocation = False, useWSL = False\<rparr>
       \<lparr>fsPath = ''/w/a.v'', languageId = ''verilog''\<rparr> [] =
     ([(''verilator lint requested'', None),
       (''verilator  --lint-only -I/w  /w/a.v'', Some command)],
      Inr \<lparr>cmd = ''verilator  --lint-only -I/w  /w/a.v'', cwd = Some ''/w''\<rparr>)"
  by code_simp

text \<open>
  C8, amended. Whenever \<open>lint\<close> gets as far as a command, the command is the six slots
  binary path, language flag, \<open>--lint-only\<close>, include-path flag, extra arguments, target
  file, with one space between neighbouring slots, an empty slot included; the language
  flag is \<open>-sv\<close> if and only if the language tag is \<open>systemverilog\<close>, and empty otherwise.
  On a host that is not Windows the binary is \<open>verilator\<close> joined to the configured
  directory, the target is the document's path and the include path its folder.
\<close>

theorem command_is_six_slots:
  "snd (lint_command h cfg doc lg) = Inr res \<Longrightarrow>
     \<exists>verilator docFolder docUri.
        cmd res = path_join h [verilatorPath cfg, verilator] @ '' ''
                  @ (if languageId doc = ''systemverilog'' then ''-sv'' else []) @ '' ''
                  @ ''--lint-only'' @ '' '' @ (''-I'' @ docFolder) @ '' ''
                  @ verilatorArgs cfg @ '' '' @ docUri
        \<and> (\<not> isWindows h \<longrightarrow>
             verilator = ''verilator'' \<and> docUri = fsPath doc
             \<and> docFolder = substr0 (fsPath doc) (lastIndexOf (fsPath doc) CHR ''/''))"
proof (cases "isWindows h")
  case False
  assume "snd (lint_command h cfg doc lg) = Inr res"
  with False have "cmd res = assemble h cfg ''verilator''
      (if languageId doc = ''systemverilog'' then ''-sv'' else [])
      (substr0 (fsPath doc) (lastIndexOf (fsPath doc) CHR ''/'')) (fsPath doc)"
    by (auto simp: lint_command_def Let_def)
  with False show ?thesis
    unfolding assemble_def join6 by (intro exI conjI impI) (rule refl | simp)+
next
  case True
  assume a: "snd (lint_command h cfg doc lg) = Inr res"
  with True have "\<exists>v f u. cmd res = assemble h cfg v
      (if languageId doc = ''systemverilog'' then ''-sv'' else []) f u"
    by (auto simp: lint_command_def Let_def split: if_splits option.splits) blast+
  then obtain v f u where "cmd res = assemble h cfg v
      (if languageId doc = ''systemverilog'' then ''-sv'' else []) f u" by blast
  with True show ?thesis
    unfolding assemble_def join6 by (intro exI[of _ v] exI[of _ f] exI[of _ u]) simp
qed

lemma command_example:
  "lint_command (posix_host ''/w'')
       \<lparr>verilatorPath = ''/usr/bin'', verilatorArgs = ''-Wall'', runAtFileLocation = False, useWSL = False\<rparr>
       \<lparr>fsPath = ''/w/rtl/top.sv'', languageId = ''systemverilog''\<rparr> [] =
     ([(''verilator lint requested'', None),
       (''/usr/bin/verilator -sv --lint-only -I/w/rtl -Wall /w/rtl/top.sv'', Some command)],
      Inr \<lparr>cmd = ''/usr/bin/verilator -sv --lint-only -I/w/rtl -Wall /w/rtl/top.sv'', cwd = Some ''/w''\<rparr>)"
  by code_simp

theorem command_is_six_slots_witness:
  "snd (lint_command (posix_host ''/w'')
       \<lparr>verilatorPath = ''/usr/bin'', verilatorArgs = ''-Wall'', runAtFileLocation = False, useWSL = False\<rparr>
       \<lparr>fsPath = ''/w/rtl/top.sv'', languageId = ''systemverilog''\<rparr> []) =
     Inr \<lparr>cmd = ''/usr/bin/verilator -sv --lint-only -I/w/rtl -Wall /w/rtl/top.sv'', cwd = Some ''/w''\<rparr>
   \<and> (\<exists>verilator docFolder docUri.
        ''/usr/bin/verilator -sv --lint-only -I/w/rtl -Wall /w/rtl/top.sv'' =
          posix_join [''/usr/bin'', verilator] @ '' '' @ ''-sv'' @ '' '' @ ''--lint-only'' @ '' ''
          @ (''-I'' @ docFolder) @ '' '' @ ''-Wall'' @ '' '' @ docUri
        \<and> verilator = ''verilator'' \<and> docUri = ''/w/rtl/top.sv'' \<and> docFolder = ''/w/rtl'')"
proof -
  let ?h = "posix_host ''/w''"
  let ?cfg = "\<lparr>verilatorPath = ''/usr/bin'', verilatorArgs = ''-Wall'', runAtFileLocation = False, useWSL = False\<rparr>"
  let ?doc = "\<lparr>fsPath = ''/w/rtl/top.sv'', languageId = ''systemverilog''\<rparr>"
  let ?res = "\<lparr>cmd = ''/usr/bin/verilator -sv --lint-only -I/w/rtl -Wall /w/rtl/top.sv'', cwd = Some ''/w''\<rparr>"
  have e: "snd (lint_command ?h ?cfg ?doc []) = Inr ?res" by (simp add: command_example)
  have f: "substr0 ''/w/rtl/top.sv'' (lastIndexOf ''/w/rtl/top.sv'' CHR ''/'') = ''/w/rtl''" by code_simp
  from command_is_six_slots [OF e] f e show ?thesis
    by (simp add: posix_host_def)
qed

subsection \<open>Matched lines: column, file path, line number\<close>


lemma match_scenario_B:
  "match ''%Warning-WIDTH: foo.sv:5:3: bit width mismatch'' re =
     Some [Some ''%Warning-WIDTH: foo.sv:5:3: bit width mismatch'', Some ''Warning'',
           Some ''-WIDTH'', Some ''foo.sv'', Some ''5'', Some ''3'', Some ''bit width mismatch'']"
  by (simp add: match_def exec_scenario_B)


lemma diagnostic_example_B:
  "diagnostic_of (posix_host ''/proj'')
       \<lparr>verilatorPath = [], verilatorArgs = [], runAtFileLocation = False, useWSL = False\<rparr>
       [Some ''%Warning-WIDTH: foo.sv:5:3: bit width mismatch'', Some ''Warning'',
        Some ''-WIDTH'', Some ''foo.sv'', Some ''5'', Some ''3'', Some ''bit width mismatch''] =
     Inr (Some (''/proj/foo.sv'',
            \<lparr>severity = Warning,
             range_vs = \<lparr>startLine = Num 4, startCharacter = Num 2,
                         endLine = Num 4, endCharacter = MAX_VALUE\<rparr>,
             message = ''bit width mismatch'', code = ''WIDTH'', source = ''verilator''\<rparr>))"
  using diagnostic_scenario_B [of
      "\<lparr>verilatorPath = [], verilatorArgs = [], runAtFileLocation = False, useWSL = False\<rparr>"]
  by simp




lemma map_of_push_at:
  "map_of (push_at f d dg) k =
     (if k = f then map_option (\<lambda>ds. ds @ [d]) (map_of dg f) else map_of dg k)"
  by (induction dg rule: count_diagnostics.induct) auto

lemma map_of_add_diagnostic:
  "map_of (add_diagnostic f d dg) f =
     Some (case map_of dg f of None \<Rightarrow> [d] | Some ds \<Rightarrow> ds @ [d])"
proof (cases "f \<in> fst ` set dg")
  case True
  then obtain ds where "map_of dg f = Some ds"
    by (metis map_of_eq_None_iff not_Some_eq)
  with True show ?thesis by (simp add: add_diagnostic_def map_of_push_at)
next
  case False
  then have "map_of dg f = None" by (simp add: map_of_eq_None_iff)
  with False show ?thesis by (simp add: add_diagnostic_def map_add_def)
qed

text \<open>
  C9. For every matched line, the diagnostic that is built is filed under the captured
  path itself when run-at-file-location is enabled; otherwise under the captured path
  itself if \<open>path.isAbsolute\<close> holds of it, and under
  \<open>path.join(workspace.rootPath, captured)\<close> if it does not.
\<close>

theorem file_path_resolution:
  assumes "match line re = Some rex" and "diagnostic_of h cfg rex = Inr (Some (filename, d))"
  shows "\<exists>p. rex ! 3 = Some p
         \<and> (runAtFileLocation cfg \<longrightarrow> filename = p)
         \<and> (\<not> runAtFileLocation cfg \<and> path_isAbsolute h p \<longrightarrow> filename = p)
         \<and> (\<not> runAtFileLocation cfg \<and> \<not> path_isAbsolute h p \<longrightarrow>
               (\<exists>root. rootPath h = Some root \<and> filename = path_join h [root, p]))
         \<and> parse_line h cfg line acc = Inr (add_diagnostic filename d (fst acc), snd acc)
         \<and> (\<exists>ds. map_of (add_diagnostic filename d (fst acc)) filename = Some ds \<and> last ds = d)"
proof -
  from diagnostic_of_built[OF assms] obtain m g1 g2 g3 g4 g5 g6 where
    rex: "rex = [Some m, Some g1, g2, Some g3, Some g4, g5, Some g6]"
    and f: "resolve_filename h cfg g3 = Inr filename"
    by blast
  have r3: "rex ! 3 = Some g3" by (simp add: rex)
  from f have 1: "runAtFileLocation cfg \<longrightarrow> filename = g3"
    and 2: "\<not> runAtFileLocation cfg \<and> path_isAbsolute h g3 \<longrightarrow> filename = g3"
    and 3: "\<not> runAtFileLocation cfg \<and> \<not> path_isAbsolute h g3 \<longrightarrow>
               (\<exists>root. rootPath h = Some root \<and> filename = path_join h [root, g3])"
    by (auto simp: resolve_filename_def split: if_splits option.splits)
  have m: "\<exists>ds. map_of (add_diagnostic filename d (fst acc)) filename = Some ds \<and> last ds = d"
    by (simp add: map_of_add_diagnostic split: option.splits)
  from r3 1 2 3 parse_line_built[OF assms, of acc] m show ?thesis by blast
qed

theorem file_path_resolution_witness:
  "match ''%Warning-WIDTH: foo.sv:5:3: bit width mismatch'' re =
     Some [Some ''%Warning-WIDTH: foo.sv:5:3: bit width mismatch'', Some ''Warning'',
           Some ''-WIDTH'', Some ''foo.sv'', Some ''5'', Some ''3'', Some ''bit width mismatch'']
   \<and> diagnostic_of (posix_host ''/proj'')
       \<lparr>verilatorPath = [], verilatorArgs = [], runAtFileLocation = False, useWSL = False\<rparr>
       [Some ''%Warning-WIDTH: foo.sv:5:3: bit width mismatch'', Some ''Warning'',
        Some ''-WIDTH'', Some ''foo.sv'', Some ''5'', Some ''3'', Some ''bit width mismatch''] =
     Inr (Some (''/proj/foo.sv'',
            \<lparr>severity = Warning,
             range_vs = \<lparr>startLine = Num 4, startCharacter = Num 2,
                         endLine = Num 4, endCharacter = MAX_VALUE\<rparr>,
             message = ''bit width mismatch'', code = ''WIDTH'', source = ''verilator''\<rparr>))
   \<and> \<not> path_isAbsolute (posix_host ''/proj'') ''foo.sv''
   \<and> rootPath (posix_host ''/proj'') = Some ''/proj''
   \<and> ''/proj/foo.sv'' = path_join (posix_host ''/proj'') [''/proj'', ''foo.sv'']"
proof -
  let ?h = "posix_host ''/proj''"
  let ?cfg = "\<lparr>verilatorPath = [], verilatorArgs = [], runAtFileLocation = False, useWSL = False\<rparr>"
  have h: "path_isAbsolute ?h = posix_isAbsolute" "path_join ?h = posix_join"
    "rootPath ?h = Some ''/proj''"
    by (simp_all add: posix_host_def)
  note t = file_path_resolution [OF match_scenario_B diagnostic_example_B, of "([], [])"]
  from t obtain p where
    p: "[Some ''%Warning-WIDTH: foo.sv:5:3: bit width mismatch'', Some ''Warning'',
        Some ''-WIDTH'', Some ''foo.sv'', Some ''5'', Some ''3'', Some ''bit width mismatch''] ! 3 = Some p"
    and r: "\<not> runAtFileLocation ?cfg \<and> \<not> path_isAbsolute ?h p \<longrightarrow>
               (\<exists>root. rootPath ?h = Some root \<and> ''/proj/foo.sv'' = path_join ?h [root, p])"
    by (elim exE conjE)
  from p have pe: "p = ''foo.sv''" by simp
  have na: "\<not> path_isAbsolute ?h ''foo.sv''" by (simp add: h posix_scenario_B)
  then have c: "\<not> runAtFileLocation ?cfg \<and> \<not> path_isAbsolute ?h ''foo.sv''" by simp
  from r[unfolded pe, THEN mp, OF c] obtain root where
    ro: "rootPath ?h = Some root" and j: "''/proj/foo.sv'' = path_join ?h [root, ''foo.sv'']"
    by (elim exE conjE)
  from ro have "root = ''/proj''" by (simp add: h)
  from j[unfolded this] have j': "''/proj/foo.sv'' = path_join ?h [''/proj'', ''foo.sv'']" .
  show ?thesis
    by (intro conjI match_scenario_B diagnostic_example_B na h(3) j')
qed




subsection \<open>The published line numbers\<close>

lemma forEach_line_invariant:
  assumes new: "\<And>line rex filename d. line \<in> set lines \<Longrightarrow> match line re = Some rex \<Longrightarrow>
                  diagnostic_of h cfg rex = Inr (Some (filename, d)) \<Longrightarrow> P d"
  shows "forEach_line h cfg lines acc = Inr acc' \<Longrightarrow>
         (\<And>f ds d. (f, ds) \<in> set (fst acc) \<Longrightarrow> d \<in> set ds \<Longrightarrow> P d) \<Longrightarrow>
         (f, ds) \<in> set (fst acc') \<Longrightarrow> d \<in> set ds \<Longrightarrow> P d"
  using new
proof (induction lines arbitrary: acc)
  case Nil
  then show ?case by simp
next
  case (Cons line lines)
  from Cons.prems(1) obtain acc1 where p: "parse_line h cfg line acc = Inr acc1"
    and r: "forEach_line h cfg lines acc1 = Inr acc'"
    by (auto split: sum.splits)
  have inv1: "P d'" if "(f', ds') \<in> set (fst acc1)" "d' \<in> set ds'" for f' ds' d'
  proof (cases "match line re")
    case None
    then have "exec_from re 0 line = None" by (simp add: match_def)
    with p have "acc1 = acc" by (simp add: parse_line_no_match)
    with that Cons.prems(2) show ?thesis by blast
  next
    case (Some rex)
    from p have "acc1 = acc \<or> (\<exists>filename d0. diagnostic_of h cfg rex = Inr (Some (filename, d0))
        \<and> fst acc1 = add_diagnostic filename d0 (fst acc))"
      unfolding parse_line_on_match[OF Some] by (fastforce split: sum.splits option.splits)
    then show ?thesis
    proof
      assume "acc1 = acc"
      with that Cons.prems(2) show ?thesis by blast
    next
      assume "\<exists>filename d0. diagnostic_of h cfg rex = Inr (Some (filename, d0))
        \<and> fst acc1 = add_diagnostic filename d0 (fst acc)"
      then obtain filename d0 where d0: "diagnostic_of h cfg rex = Inr (Some (filename, d0))"
        and a1: "fst acc1 = add_diagnostic filename d0 (fst acc)" by blast
      from that a1 in_add_diagnostic[of f' ds' filename d0 "fst acc" d']
      have "d' = d0 \<or> (\<exists>ds0. (f', ds0) \<in> set (fst acc) \<and> d' \<in> set ds0)" by simp
      moreover have "P d0" by (rule Cons.prems(5)[OF _ Some d0]) simp
      ultimately show ?thesis using Cons.prems(2) by blast
    qed
  qed
  show ?case
  proof (rule Cons.IH[OF r _ Cons.prems(3,4)])
    fix f' ds' d' assume "(f', ds') \<in> set (fst acc1)" "d' \<in> set ds'"
    then show "P d'" by (rule inv1)
  next
    fix l rex filename d0
    assume "l \<in> set lines" "match l re = Some rex" "diagnostic_of h cfg rex = Inr (Some (filename, d0))"
    then show "P d0" using Cons.prems(5)[of l rex filename d0] by simp
  qed
qed

text \<open>
  C2. Every diagnostic in the published collection has a non-negative line number: it
  comes from a matched line of the error stream whose line field is a non-empty run of
  digits, and its line number is that number minus one, never a default. No matched
  line has a line field that converts to NaN, so the guard of line 166, which drops such
  a match before it is grouped, has nothing to drop.
\<close>

theorem published_line_numbers:
  "(lint_callback h cfg err stderr st = Inr st' \<longrightarrow> (f, ds) \<in> set (collection st') \<longrightarrow> d \<in> set ds \<longrightarrow>
      js_le (Num 0) (startLine (range_vs d))
    \<and> (\<exists>line rex g. line \<in> set (split_lines stderr) \<and> match line re = Some rex
          \<and> rex ! 4 = Some g \<and> g \<noteq> [] \<and> list_all is_digit g
          \<and> startLine (range_vs d) = minus_one (Number (StringToNumber h) (Some g))))
   \<and> (match line re = Some rex \<longrightarrow>
        \<not> isNaN (minus_one (Number (StringToNumber h) (rex ! 4)))
      \<and> diagnostic_of h cfg rex \<noteq> Inr None)"
proof (intro conjI impI)
  assume cb: "lint_callback h cfg err stderr st = Inr st'"
    and f: "(f, ds) \<in> set (collection st')" and d: "d \<in> set ds"
  let ?lg = "case err of Some m \<Rightarrow> logs st @ [(m, Some error)] | None \<Rightarrow> logs st"
  let ?P = "\<lambda>d. js_le (Num 0) (startLine (range_vs d))
    \<and> (\<exists>line rex g. line \<in> set (split_lines stderr) \<and> match line re = Some rex
          \<and> rex ! 4 = Some g \<and> g \<noteq> [] \<and> list_all is_digit g
          \<and> startLine (range_vs d) = minus_one (Number (StringToNumber h) (Some g)))"
  from cb obtain dg lg' where fe: "forEach_line h cfg (split_lines stderr) ([], ?lg) = Inr (dg, lg')"
    and c: "collection st' = publish h dg []"
    by (auto simp: lint_callback_def Let_def split: sum.splits)
  from f c in_publish[of f ds h dg "[]"] have m: "(f, ds) \<in> set (fst (dg, lg'))" by simp
  have "?P d"
  proof (rule forEach_line_invariant[where h = h and cfg = cfg and P = ?P, OF _ fe _ m d])
    fix line rex filename d'
    assume l: "line \<in> set (split_lines stderr)" and ma: "match line re = Some rex"
      and b: "diagnostic_of h cfg rex = Inr (Some (filename, d'))"
    from diagnostic_of_built[OF ma b] obtain m g1 g2 g3 g4 g5 g6 where
      rex: "rex = [Some m, Some g1, g2, Some g3, Some g4, g5, Some g6]"
      and g4: "g4 \<noteq> []" "list_all is_digit g4"
      and ln: "\<not> js_lt (minus_one (to_double (decimal g4))) (Num 0)"
      and sl: "startLine (range_vs d') = minus_one (to_double (decimal g4))"
      by fastforce
    have r4: "rex ! 4 = Some g4" by (simp add: rex)
    have n: "Number (StringToNumber h) (Some g4) = to_double (decimal g4)"
      by (rule Number_digits[OF g4(2)])
    have "minus_one (to_double (decimal g4)) \<noteq> NaN" by (simp add: minus_one_NaN to_double_not_NaN)
    with ln have "js_le (Num 0) (startLine (range_vs d'))" by (simp add: sl js_le_zero_iff)
    with l ma r4 g4 sl n show "?P d'" by auto
  next
    fix f' ds' d'
    assume "(f', ds') \<in> set (fst ([] :: Diagnostics, ?lg))" and "d' \<in> set ds'"
    then show "?P d'" by simp
  qed
  then show "js_le (Num 0) (startLine (range_vs d))"
    and "\<exists>line rex g. line \<in> set (split_lines stderr) \<and> match line re = Some rex
          \<and> rex ! 4 = Some g \<and> g \<noteq> [] \<and> list_all is_digit g
          \<and> startLine (range_vs d) = minus_one (Number (StringToNumber h) (Some g))"
    by blast+
next
  assume ma: "match line re = Some rex"
  from parse_line_matched[OF ma] obtain m g1 g2 g3 g4 g5 g6 where
    rex: "rex = [Some m, Some g1, g2, Some g3, Some g4, g5, Some g6]"
    and g4: "list_all is_digit g4" by blast
  show "\<not> isNaN (minus_one (Number (StringToNumber h) (rex ! 4)))"
    by (simp add: rex Number_digits[OF g4] isNaN_def minus_one_NaN to_double_not_NaN)
  show "diagnostic_of h cfg rex \<noteq> Inr None" by (rule diagnostic_of_matched[OF ma])
qed

theorem published_line_numbers_witness:
  "lint_callback (posix_host ''/proj'')
       \<lparr>verilatorPath = [], verilatorArgs = [], runAtFileLocation = False, useWSL = False\<rparr>
       (Some ''Command failed'') ''%Warning-WIDTH: foo.sv:5:3: bit width mismatch''
       \<lparr>collection = [(''/proj/old.v'', [])], logs = []\<rparr> =
     Inr \<lparr>collection =
            [(''/proj/foo.sv'',
              [\<lparr>severity = Warning,
                range_vs = \<lparr>startLine = Num 4, startCharacter = Num 2,
                            endLine = Num 4, endCharacter = MAX_VALUE\<rparr>,
                message = ''bit width mismatch'', code = ''WIDTH'', source = ''verilator''\<rparr>])],
          logs = [(''Command failed'', Some error),
                  (''undefined errors/warnings returned'', None)]\<rparr>
   \<and> js_le (Num 0) (Num 4)
   \<and> match ''%Warning-WIDTH: foo.sv:5:3: bit width mismatch'' re =
     Some [Some ''%Warning-WIDTH: foo.sv:5:3: bit width mismatch'', Some ''Warning'',
           Some ''-WIDTH'', Some ''foo.sv'', Some ''5'', Some ''3'', Some ''bit width mismatch'']
   \<and> \<not> isNaN (minus_one (Number (StringToNumber (posix_host ''/proj'')) (Some ''5'')))"
proof -
  let ?d = "\<lparr>severity = Warning,
                range_vs = \<lparr>startLine = Num 4, startCharacter = Num 2,
                            endLine = Num 4, endCharacter = MAX_VALUE\<rparr>,
                message = ''bit width mismatch'', code = ''WIDTH'', source = ''verilator''\<rparr>"
  note t = published_line_numbers [of "posix_host ''/proj''"
      "\<lparr>verilatorPath = [], verilatorArgs = [], runAtFileLocation = False, useWSL = False\<rparr>"
      "Some ''Command failed''" "''%Warning-WIDTH: foo.sv:5:3: bit width mismatch''"
      "\<lparr>collection = [(''/proj/old.v'', [])], logs = []\<rparr>"
      "\<lparr>collection = [(''/proj/foo.sv'', [?d])],
          logs = [(''Command failed'', Some error),
                  (''undefined errors/warnings returned'', None)]\<rparr>"
      "''/proj/foo.sv''" "[?d]" ?d
      "''%Warning-WIDTH: foo.sv:5:3: bit width mismatch''"
      "[Some ''%Warning-WIDTH: foo.sv:5:3: bit width mismatch'', Some ''Warning'',
           Some ''-WIDTH'', Some ''foo.sv'', Some ''5'', Some ''3'', Some ''bit width mismatch'']"]
  have m: "(''/proj/foo.sv'', [?d]) \<in> set (collection \<lparr>collection = [(''/proj/foo.sv'', [?d])],
          logs = [(''Command failed'', Some error),
                  (''undefined errors/warnings returned'', None)]\<rparr>)" by simp
  have i: "?d \<in> set [?d]" by simp
  from t[THEN conjunct1, THEN mp, OF callback_error_example, THEN mp, OF m, THEN mp, OF i]
  have 1: "js_le (Num 0) (startLine (range_vs ?d))" by (rule conjunct1)
  from t[THEN conjunct2, THEN mp, OF match_scenario_B]
  have 2: "\<not> isNaN (minus_one (Number (StringToNumber (posix_host ''/proj''))
      ([Some ''%Warning-WIDTH: foo.sv:5:3: bit width mismatch'', Some ''Warning'',
           Some ''-WIDTH'', Some ''foo.sv'', Some ''5'', Some ''3'', Some ''bit width mismatch''] ! 4)))"
    by (rule conjunct1)
  from 1 have r1: "js_le (Num 0) (Num 4)" by simp
  from 2 have r2: "\<not> isNaN (minus_one (Number (StringToNumber (posix_host ''/proj'')) (Some ''5'')))"
    by simp
  show ?thesis
    by (intro conjI callback_error_example r1 match_scenario_B r2)
qed

end
